theory Spec2Isabelle
  imports Main "HOL-Library.Word"
begin

section \<open>Data model of validator/block\_validator.go\<close>

text \<open>
  Go's \<open>uint64\<close> is a 64-bit word (addition wraps), \<open>int32\<close> a 32-bit word read as
  two's complement, \<open>common.Hash\<close> a 32-byte value, and a byte buffer a list of bytes.
\<close>

type_synonym u64 = "64 word"
type_synonym i32 = "32 word"
type_synonym Hash = "256 word"
type_synonym bytes = "8 word list"

record PosInSequencer =
  Pos :: u64
  BatchNum :: u64
  PosInBatch :: u64
  BatchAfter :: u64
  PosAfter :: u64

text \<open>
  \<open>types.Header\<close>: the fields the validator reads. \<open>Number\<close> is a big integer,
  \<open>Nonce\<close> the 8-byte block nonce (compared as a whole, read with \<open>Uint64()\<close>);
  \<open>Extra\<close> stands for the rest of the header. \<open>Hash()\<close> is the header hash, a
  function of the whole header that every operation below takes as the parameter
  \<open>hashOf\<close>.
\<close>

record Header =
  ParentHash :: Hash
  Number :: nat
  Nonce :: u64
  Extra :: bytes

record delayedMsgInfo =
  data :: bytes
  seq :: u64

record validationEntry =
  BlockNumber :: u64
  PrevBlockHash :: Hash
  BlockHash :: Hash
  BlockHeader :: Header
  Preimages :: "Hash list"
  HasDelayedMsg :: bool
  DelayedMsgNr :: u64
  SeqMsgNr :: u64
  Pos :: u64
  Running :: bool
  MsgsAllocated :: "delayedMsgInfo list"
  Valid :: bool

record BlockValidatorConfig =
  RootPath :: string
  ProverBinPath :: string
  ModulePaths :: "string list"
  OutputPath :: string
  InitialMachineCachePath :: string
  ConcurrentRunsLimit :: "64 word"
  BlocksToRecord :: "u64 list"

text \<open>
  The process-wide registry \<open>validatorStatic\<close>. The two \<open>sync.Map\<close>s are maps from a
  position (a batch number) to the stored value; \<open>inboxTracker\<close> is the delayed-message
  reader, \<open>None\<close> while the interface value is nil.
\<close>

record blockValidatorGlobals =
  initialized :: bool
  validationEntries :: "u64 \<rightharpoonup> validationEntry"
  sequencerBatches :: "u64 \<rightharpoonup> bytes"
  inboxTracker :: "(u64 \<Rightarrow> string + bytes) option"

type_synonym preimageCache = "Hash \<rightharpoonup> (bytes \<times> nat)"

text \<open>
  The \<open>BlockValidator\<close> struct; \<open>'m\<close> is the state of an arbitrator machine. The three
  channels carry no data the properties below depend on: a send is an event of the trace.
\<close>

record 'm BlockValidator =
  preimageCache :: preimageCache
  posToValidate :: "PosInSequencer list"
  posNext :: u64
  batchNrValidated :: u64
  blocksValidated :: u64
  posNextSend :: u64
  baseMachine :: 'm
  config :: BlockValidatorConfig
  atomicValidationsRunning :: i32
  concurrentRunsLimit :: i32

text \<open>
  Modelled from the spec: the global state of a machine, whose declaration and
  \<open>CreateGlobalState\<close>/\<open>ParseGlobalState\<close> live in another file of the package. The
  spec gives it as the triple (batchNum, posInBatch, blockHash), round-trippable.
\<close>

record GlobalState =
  gsBatch :: u64
  gsPosInBatch :: u64
  gsBlockHash :: Hash

definition CreateGlobalState :: "u64 \<Rightarrow> u64 \<Rightarrow> Hash \<Rightarrow> GlobalState" where
  "CreateGlobalState batch posInBatch h =
     \<lparr>gsBatch = batch, gsPosInBatch = posInBatch, gsBlockHash = h\<rparr>"

definition ParseGlobalState :: "GlobalState \<Rightarrow> u64 \<times> u64 \<times> Hash" where
  "ParseGlobalState gs = (gsBatch gs, gsPosInBatch gs, gsBlockHash gs)"

text \<open>
  The arbitrator machine is an external collaborator reached through cgo. Its operations
  are the fields of \<open>machine_ops\<close>; \<open>Step\<close> is \<open>mach.Step(ctx, count)\<close>, whose error is
  the context's cancellation, its deadline, or anything else.
\<close>

datatype step_error = Canceled | DeadlineExceeded | OtherStepError string

record 'm machine_ops =
  Clone :: "'m \<Rightarrow> 'm"
  AddPreimages :: "bytes list \<Rightarrow> 'm \<Rightarrow> 'm"
  SetGlobalState :: "GlobalState \<Rightarrow> 'm \<Rightarrow> 'm"
  AddSequencerInboxMessage :: "u64 \<Rightarrow> bytes \<Rightarrow> 'm \<Rightarrow> 'm"
  AddDelayedInboxMessage :: "u64 \<Rightarrow> bytes \<Rightarrow> 'm \<Rightarrow> 'm"
  IsRunning :: "'m \<Rightarrow> bool"
  Step :: "'m \<Rightarrow> step_error + 'm"
  GetGlobalState :: "'m \<Rightarrow> GlobalState"

text \<open>What a run leaves behind, in order: log records, file writes, frees and channel sends.\<close>

datatype event =
    LogInfo string
  | LogWarn string
  | LogError string
  | LogValidationFailed u64 u64 u64 u64 u64 Hash Hash
  | WriteToFile u64
  | FreePreimages
  | DestroyCByteArray bytes
  | Panic string
  | SendCheckProgress
  | SendSendValidations
  | SendProgress u64

datatype outcome = Returned | Goexit | Panicked

record 'm vresult =
  outcome :: outcome
  validator :: "'m BlockValidator"
  entry :: validationEntry
  events :: "event list"

section \<open>Preimage cache\<close>

text \<open>
  Modelled from the spec: the preimage cache (\<open>PourToCache\<close>,
  \<open>PrepareMultByteArrays\<close>, \<open>RemoveFromCache\<close>) is code of the package outside this
  file. Section 4.1 of the specification: ingest inserts missing entries, increments the
  reference count of every key supplied and returns the hashes as a list; pack produces
  the stored bytes of the listed hashes; release decrements reference counts, evicts an
  entry whose count reaches 0, and over a missing key reports an error but proceeds. A Go
  map has no order: the preimages are the association list of one iteration over it.
\<close>

fun PourToCache :: "preimageCache \<Rightarrow> (Hash \<times> bytes) list \<Rightarrow> Hash list \<times> preimageCache" where
  "PourToCache c [] = ([], c)"
| "PourToCache c ((h, b) # ps) =
     (let c1 = (case c h of None \<Rightarrow> c(h \<mapsto> (b, 1)) | Some (b0, n) \<Rightarrow> c(h \<mapsto> (b0, Suc n)));
          (hs, c2) = PourToCache c1 ps
      in (h # hs, c2))"

fun PrepareMultByteArrays :: "preimageCache \<Rightarrow> Hash list \<Rightarrow> string + bytes list" where
  "PrepareMultByteArrays c [] = Inr []"
| "PrepareMultByteArrays c (h # hs) =
     (case c h of
        None \<Rightarrow> Inl ''preimage not in cache''
      | Some (b, n) \<Rightarrow>
          (case PrepareMultByteArrays c hs of Inl err \<Rightarrow> Inl err | Inr bs \<Rightarrow> Inr (b # bs)))"

fun RemoveFromCache :: "preimageCache \<Rightarrow> Hash list \<Rightarrow> preimageCache \<times> string option" where
  "RemoveFromCache c [] = (c, None)"
| "RemoveFromCache c (h # hs) =
     (case c h of
        None \<Rightarrow> (fst (RemoveFromCache c hs), Some ''preimage not in cache'')
      | Some (b, n) \<Rightarrow>
          RemoveFromCache (if n \<le> 1 then c(h := None) else c(h \<mapsto> (b, n - 1))) hs)"

section \<open>The validator task: validate\<close>

text \<open>
  Lines 378-386: the scan of \<open>config.BlocksToRecord\<close>. It starts from the value
  \<open>writeThisBlock\<close> has so far, stops at the first listed number greater than the
  block's, and sets the flag at an equal one.
\<close>

fun scanBlocksToRecord :: "u64 list \<Rightarrow> u64 \<Rightarrow> bool \<Rightarrow> bool" where
  "scanBlocksToRecord [] blockNumber writeThisBlock = writeThisBlock"
| "scanBlocksToRecord (blockNr # rest) blockNumber writeThisBlock =
     (if blockNr > blockNumber then writeThisBlock
      else if blockNr = blockNumber then True
      else scanBlocksToRecord rest blockNumber writeThisBlock)"

text \<open>
  Lines 352-365: the machine runs in chunks of 100000000 steps while it is running. The
  loop has no bound of its own, so the model takes fuel: \<open>None\<close> when the machine is
  still running after \<open>fuel\<close> chunks. The result is the log of the chunks done, and the
  stopped machine or the error of the failing chunk.
\<close>

primrec run_machine :: "'m machine_ops \<Rightarrow> nat \<Rightarrow> 'm \<Rightarrow> (event list \<times> (step_error + 'm)) option" where
  "run_machine ops 0 mach = (if IsRunning ops mach then None else Some ([], Inr mach))"
| "run_machine ops (Suc fuel) mach =
     (if IsRunning ops mach then
        (case Step ops mach of
           Inl err \<Rightarrow> Some ([], Inl err)
         | Inr mach' \<Rightarrow>
             (case run_machine ops fuel mach' of
                None \<Rightarrow> None
              | Some (evs, r) \<Rightarrow> Some (LogInfo ''validation'' # evs, r)))
      else Some ([], Inr mach))"

text \<open>
  Lines 307-350: the checks and the set-up of the machine. \<open>Inl\<close> is a task that ended
  before the machine ran; \<open>Inr\<close> the prepared machine, the entry (with \<open>SeqMsgNr\<close> and
  \<open>Running\<close> set) and the trace so far. The deferred \<open>C.free\<close> of line 317 runs on every
  exit after it, \<open>runtime.Goexit\<close> included. A value of \<open>sequencerBatches\<close> is always a
  byte array, so the failed type assertion of line 332 has no case. Calling the nil
  reader is Go's nil-dereference panic.
\<close>

definition validate_setup ::
  "'m machine_ops \<Rightarrow> blockValidatorGlobals \<Rightarrow> 'm BlockValidator \<Rightarrow> validationEntry \<Rightarrow>
   PosInSequencer \<Rightarrow> PosInSequencer \<Rightarrow> 'm vresult + ('m \<times> validationEntry \<times> event list)" where
  "validate_setup ops g v e startRec endRec =
     (let ev0 = [LogInfo ''starting validation for block''] in
      if \<not> initialized g then
        Inl \<lparr>outcome = Returned, validator = v, entry = e,
             events = ev0 @ [LogError ''validator: validatorStatic not initialized'']\<rparr>
      else if Pos e \<noteq> PosInSequencer.Pos endRec then
        Inl \<lparr>outcome = Returned, validator = v, entry = e,
             events = ev0 @ [LogError ''validator: validate got bad args'']\<rparr>
      else
        (case PrepareMultByteArrays (preimageCache v) (Preimages e) of
           Inl err \<Rightarrow>
             Inl \<lparr>outcome = Returned, validator = v, entry = e,
                  events = ev0 @ [LogError ''validator: failed prepare arrays'', FreePreimages]\<rparr>
         | Inr c_preimages \<Rightarrow>
             (let e1 = e\<lparr>SeqMsgNr := BatchNum startRec, Running := True\<rparr>;
                  gsStart = CreateGlobalState (BatchNum startRec) (PosInBatch startRec) (PrevBlockHash e1)
              in case sequencerBatches g (BatchNum startRec) of
                   None \<Rightarrow>
                     Inl \<lparr>outcome = Goexit, validator = v, entry = e1,
                          events = ev0 @ [LogError ''didn't find sequencer message'', FreePreimages]\<rparr>
                 | Some seqCByte \<Rightarrow>
                     (let mach = AddSequencerInboxMessage ops (BatchNum startRec) seqCByte
                                   (SetGlobalState ops gsStart
                                     (AddPreimages ops c_preimages (Clone ops (baseMachine v))))
                      in if HasDelayedMsg e1 then
                           (case inboxTracker g of
                              None \<Rightarrow>
                                Inl \<lparr>outcome = Panicked, validator = v, entry = e1,
                                     events = ev0 @ [Panic ''nil pointer dereference'', FreePreimages]\<rparr>
                            | Some reader \<Rightarrow>
                                (case reader (DelayedMsgNr e1) of
                                   Inl err \<Rightarrow>
                                     Inl \<lparr>outcome = Goexit, validator = v, entry = e1,
                                          events = ev0 @ [LogError ''error while trying to read delayed msg for proving'',
                                                          FreePreimages]\<rparr>
                                 | Inr msg \<Rightarrow>
                                     Inr (AddDelayedInboxMessage ops (DelayedMsgNr e1) msg mach, e1, ev0)))
                         else Inr (mach, e1, ev0)))))"

text \<open>
  Lines 366-414: the verdict, the reproduction artifact, and the abort or the release of
  the task's resources. \<open>writeToFile\<close> is file I/O; its error, if any, is given by
  \<open>wtf\<close>, and the call is the event \<open>WriteToFile\<close> of the entry's block number.
\<close>

definition validate_finish ::
  "'m machine_ops \<Rightarrow> (validationEntry \<Rightarrow> PosInSequencer \<Rightarrow> PosInSequencer \<Rightarrow> string option) \<Rightarrow>
   'm BlockValidator \<Rightarrow> validationEntry \<Rightarrow> PosInSequencer \<Rightarrow> PosInSequencer \<Rightarrow> 'm \<Rightarrow> 'm vresult" where
  "validate_finish ops wtf v e startRec endRec mach =
     (let gsEnd = GetGlobalState ops mach;
          (resBatch, resPosInBatch, resHash) = ParseGlobalState gsEnd;
          resultValid = (resBatch = BatchAfter endRec \<and> resPosInBatch = PosAfter endRec
                           \<and> resHash = BlockHash e);
          writeThisBlock =
            scanBlocksToRecord (BlocksToRecord (config v)) (BlockNumber e) (\<not> resultValid);
          wev = (if writeThisBlock then
                   WriteToFile (BlockNumber e) #
                     (case wtf e startRec endRec of
                        None \<Rightarrow> []
                      | Some err \<Rightarrow> [LogError ''failed to write file''])
                 else [])
      in if \<not> resultValid then
           \<lparr>outcome = Panicked, validator = v, entry = e,
            events = wev @
              [LogValidationFailed (PosInSequencer.Pos startRec) (BatchAfter endRec) resBatch
                 (PosAfter endRec) resPosInBatch (BlockHash e) resHash,
               LogError ''validation failed'',
               Panic ''validation failed. quitting..'',
               FreePreimages]\<rparr>
         else
           (let (cache', err) = RemoveFromCache (preimageCache v) (Preimages e) in
            \<lparr>outcome = Returned,
             validator = v\<lparr>preimageCache := cache',
                           atomicValidationsRunning := atomicValidationsRunning v - 1\<rparr>,
             entry = e\<lparr>MsgsAllocated := [], Preimages := [], Valid := True\<rparr>,
             events = wev @
               (case err of None \<Rightarrow> [] | Some x \<Rightarrow> [LogError ''validator failed to remove from cache'']) @
               map (\<lambda>cbyte. DestroyCByteArray (data cbyte)) (MsgsAllocated e) @
               [LogInfo ''validation succeeded'', SendCheckProgress, SendSendValidations,
                FreePreimages]\<rparr>))"

text \<open>
  The whole of \<open>validate\<close> (lines 306-415). A step error that is the context's
  cancellation or deadline returns at line 361; any other one panics.
\<close>

definition validate ::
  "'m machine_ops \<Rightarrow> (validationEntry \<Rightarrow> PosInSequencer \<Rightarrow> PosInSequencer \<Rightarrow> string option) \<Rightarrow>
   nat \<Rightarrow> blockValidatorGlobals \<Rightarrow> 'm BlockValidator \<Rightarrow> validationEntry \<Rightarrow>
   PosInSequencer \<Rightarrow> PosInSequencer \<Rightarrow> 'm vresult option" where
  "validate ops wtf fuel g v e startRec endRec =
     (case validate_setup ops g v e startRec endRec of
        Inl r \<Rightarrow> Some r
      | Inr (mach, e1, ev) \<Rightarrow>
          (case run_machine ops fuel mach of
             None \<Rightarrow> None
           | Some (lev, Inl err) \<Rightarrow>
               (if err = Canceled \<or> err = DeadlineExceeded then
                  Some \<lparr>outcome = Returned, validator = v, entry = e1,
                        events = ev @ lev @ [FreePreimages]\<rparr>
                else
                  Some \<lparr>outcome = Panicked, validator = v, entry = e1,
                        events = ev @ lev @
                          [LogError ''running machine failed'',
                           Panic ''Failed to run machine'', FreePreimages]\<rparr>)
           | Some (lev, Inr mEnd) \<Rightarrow>
               (let r = validate_finish ops wtf v e1 startRec endRec mEnd
                in Some (r\<lparr>events := ev @ lev @ events r\<rparr>))))"

section \<open>Construction: NewBlockValidator\<close>

text \<open>
  \<open>validatorStatic\<close> is the package-level variable of lines 97-105, and
  \<open>validatorStatic0\<close> its zero value at process start. \<open>NewBlockValidator\<close> (lines
  163-198) loads the base machine first; the load touches nothing of the state kept here
  and its result is the parameter \<open>loaded\<close>; \<open>numCPU\<close> is \<open>runtime.NumCPU()\<close>. The
  panic of line 177 is \<open>Inl\<close> with its message. The conversion \<open>int32(concurrent)\<close>
  truncates. \<open>NewBlockValidator_calls\<close> is a sequence of constructor calls in one
  process, each on the package-level state the previous ones left.
\<close>

definition validatorStatic0 :: blockValidatorGlobals where
  "validatorStatic0 = \<lparr>initialized = False, validationEntries = Map.empty,
     sequencerBatches = Map.empty, inboxTracker = None\<rparr>"

definition NewBlockValidator ::
  "'m \<Rightarrow> 64 word \<Rightarrow> blockValidatorGlobals \<Rightarrow> (u64 \<Rightarrow> string + bytes) \<Rightarrow> BlockValidatorConfig \<Rightarrow>
   string + (blockValidatorGlobals \<times> 'm BlockValidator)" where
  "NewBlockValidator loaded numCPU g inbox cfg =
     (if initialized g then Inl ''creating block validator when one exists''
      else
        (let g' = g\<lparr>inboxTracker := Some inbox, initialized := True\<rparr>;
             concurrent = (if ConcurrentRunsLimit cfg = 0 then numCPU else ConcurrentRunsLimit cfg)
         in Inr (g',
              \<lparr>preimageCache = Map.empty, posToValidate = [], posNext = 0,
               batchNrValidated = 0, blocksValidated = 0, posNextSend = 0,
               baseMachine = loaded, config = cfg, atomicValidationsRunning = 0,
               concurrentRunsLimit = ucast concurrent\<rparr>)))"

fun NewBlockValidator_calls ::
  "'m \<Rightarrow> 64 word \<Rightarrow> blockValidatorGlobals \<Rightarrow> ((u64 \<Rightarrow> string + bytes) \<times> BlockValidatorConfig) list \<Rightarrow>
   (string + 'm BlockValidator) list" where
  "NewBlockValidator_calls loaded numCPU g [] = []"
| "NewBlockValidator_calls loaded numCPU g ((inbox, cfg) # calls) =
     (case NewBlockValidator loaded numCPU g inbox cfg of
        Inl msg \<Rightarrow> Inl msg # NewBlockValidator_calls loaded numCPU g calls
      | Inr (g', v) \<Rightarrow> Inr v # NewBlockValidator_calls loaded numCPU g' calls)"

section \<open>Submission: prepareBlock and ProcessBatches\<close>

text \<open>
  \<open>prepareBlock\<close> (lines 200-214). \<open>PourToCache\<close> is the first statement (line 201);
  the comparison of the parent hash follows (line 204). The send on
  \<open>sendValidationsChan\<close> is the event \<open>SendSendValidations\<close>. \<open>newValidationEntry\<close>
  (lines 127-138) fills the fields from the header and leaves the others at their zero
  value. \<open>ProcessBatches\<close> (lines 531-542) stores every batch and appends the position
  records to the queue; the batches are the association list of one iteration over the Go
  map.
\<close>

definition newValidationEntry ::
  "(Header \<Rightarrow> Hash) \<Rightarrow> Header \<Rightarrow> bool \<Rightarrow> u64 \<Rightarrow> Hash list \<Rightarrow> u64 \<Rightarrow> validationEntry" where
  "newValidationEntry hashOf header hasDelayed delayedMsgNr preimages pos =
     \<lparr>BlockNumber = of_nat (Number header), PrevBlockHash = ParentHash header,
      BlockHash = hashOf header, BlockHeader = header, Preimages = preimages,
      HasDelayedMsg = hasDelayed, DelayedMsgNr = delayedMsgNr, SeqMsgNr = 0, Pos = pos,
      Running = False, MsgsAllocated = [], Valid = False\<rparr>"

definition prepareBlock ::
  "(Header \<Rightarrow> Hash) \<Rightarrow> blockValidatorGlobals \<Rightarrow> 'm BlockValidator \<Rightarrow> Header \<Rightarrow> Header \<Rightarrow>
   (Hash \<times> bytes) list \<Rightarrow> u64 \<Rightarrow> blockValidatorGlobals \<times> 'm BlockValidator \<times> event list" where
  "prepareBlock hashOf g v header prevHeader preimages pos =
     (let (hashlist, cache') = PourToCache (preimageCache v) preimages;
          v1 = v\<lparr>preimageCache := cache'\<rparr>
      in if ParentHash header \<noteq> hashOf prevHeader then
           (g, v1, [LogError ''prepareBlock: wrong headers''])
         else
           (let hasDelayedMessage = (Nonce header \<noteq> Nonce prevHeader);
                delayedMsgToRead = (if hasDelayedMessage then Nonce prevHeader else 0)
            in (g\<lparr>validationEntries := (validationEntries g)
                     (pos \<mapsto> newValidationEntry hashOf header hasDelayedMessage delayedMsgToRead
                                hashlist pos)\<rparr>,
                v1, [SendSendValidations])))"

definition ProcessBatches ::
  "blockValidatorGlobals \<Rightarrow> 'm BlockValidator \<Rightarrow> (u64 \<times> bytes) list \<Rightarrow> PosInSequencer list \<Rightarrow>
   blockValidatorGlobals \<times> 'm BlockValidator \<times> event list" where
  "ProcessBatches g v batches posData =
     (g\<lparr>sequencerBatches := fold (\<lambda>(batchNr, msg) m. m(batchNr \<mapsto> msg)) batches (sequencerBatches g)\<rparr>,
      v\<lparr>posToValidate := posToValidate v @ posData\<rparr>,
      [SendSendValidations])"

section \<open>Dispatcher: sendValidations\<close>

text \<open>
  \<open>StupidSearchPos\<close> (lines 155-161) counts the leading records below \<open>pos\<close>.
  \<open>sendValidations\<close> (lines 417-450) sorts the queue by \<open>Pos\<close>, drops the records below
  \<open>posNextSend\<close> and then runs the loop \<open>sendValidations_loop\<close>, which returns the
  validator and the tasks it started, each one the triple of arguments of
  \<open>go v.validate\<close>. The counter comparison of line 426 is on \<open>int32\<close>, hence signed.
  \<open>sort.Sort\<close> is not stable; \<open>sort_key\<close> is one of the orders it may produce, and
  the properties proved below depend only on the result being ordered by \<open>Pos\<close>.
\<close>

fun StupidSearchPos :: "PosInSequencer list \<Rightarrow> u64 \<Rightarrow> nat" where
  "StupidSearchPos [] pos = 0"
| "StupidSearchPos (r # l) pos =
     (if PosInSequencer.Pos r < pos then Suc (StupidSearchPos l pos) else 0)"

function sendValidations_loop ::
  "blockValidatorGlobals \<Rightarrow> 'm BlockValidator \<Rightarrow>
   'm BlockValidator \<times> (validationEntry \<times> PosInSequencer \<times> PosInSequencer) list" where
  "sendValidations_loop g v =
     (if word_sle (concurrentRunsLimit v) (atomicValidationsRunning v) then (v, [])
      else if posToValidate v = [] \<or> PosInSequencer.Pos (hd (posToValidate v)) \<noteq> posNextSend v
      then (v, [])
      else
        (case validationEntries g (posNextSend v) of
           None \<Rightarrow> (v, [])
         | Some e \<Rightarrow>
             (let idx = StupidSearchPos (posToValidate v) (Pos e) in
              if length (posToValidate v) \<le> idx
                 \<or> PosInSequencer.Pos (posToValidate v ! idx) \<noteq> Pos e
              then (v, [])
              else
                (let (v', ds) = sendValidations_loop g
                       (v\<lparr>atomicValidationsRunning := atomicValidationsRunning v + 1,
                          posNextSend := Pos e + 1,
                          posToValidate := drop (idx + 1) (posToValidate v)\<rparr>)
                 in (v', (e, hd (posToValidate v), posToValidate v ! idx) # ds)))))"
  by pat_completeness auto
termination
  by (relation "measure (\<lambda>(g, v). length (posToValidate v))") auto

declare sendValidations_loop.simps [simp del]

definition sendValidations ::
  "blockValidatorGlobals \<Rightarrow> 'm BlockValidator \<Rightarrow>
   'm BlockValidator \<times> (validationEntry \<times> PosInSequencer \<times> PosInSequencer) list" where
  "sendValidations g v =
     (let sorted_list = sort_key PosInSequencer.Pos (posToValidate v);
          idx = StupidSearchPos sorted_list (posNextSend v)
      in sendValidations_loop g (v\<lparr>posToValidate := drop idx sorted_list\<rparr>))"

text \<open>
  What the dispatcher sees of a run of the validator: the calls that change the queue,
  the table of entries, the run counter or \<open>posNextSend\<close>, in the order the mutexes
  serialise them. A finishing task decrements \<open>atomicValidationsRunning\<close> (line 408).
  \<open>dispatcher_run\<close> returns the tasks started, in the order they were started.
\<close>

datatype action =
    DoProcessBatches "(u64 \<times> bytes) list" "PosInSequencer list"
  | DoPrepareBlock Header Header "(Hash \<times> bytes) list" u64
  | DoValidationDone
  | DoSendValidations

fun submitted :: "action \<Rightarrow> PosInSequencer list" where
  "submitted (DoProcessBatches batches posData) = posData"
| "submitted a = []"

fun dispatcher_run ::
  "(Header \<Rightarrow> Hash) \<Rightarrow> action list \<Rightarrow> blockValidatorGlobals \<Rightarrow> 'm BlockValidator \<Rightarrow>
   blockValidatorGlobals \<times> 'm BlockValidator \<times> (validationEntry \<times> PosInSequencer \<times> PosInSequencer) list" where
  "dispatcher_run hashOf [] g v = (g, v, [])"
| "dispatcher_run hashOf (DoProcessBatches batches posData # acts) g v =
     (let (g1, v1, evs) = ProcessBatches g v batches posData in dispatcher_run hashOf acts g1 v1)"
| "dispatcher_run hashOf (DoPrepareBlock header prevHeader preimages pos # acts) g v =
     (let (g1, v1, evs) = prepareBlock hashOf g v header prevHeader preimages pos
      in dispatcher_run hashOf acts g1 v1)"
| "dispatcher_run hashOf (DoValidationDone # acts) g v =
     dispatcher_run hashOf acts g (v\<lparr>atomicValidationsRunning := atomicValidationsRunning v - 1\<rparr>)"
| "dispatcher_run hashOf (DoSendValidations # acts) g v =
     (let (v1, ds) = sendValidations g v;
          (g2, v2, ds') = dispatcher_run hashOf acts g v1
      in (g2, v2, ds @ ds'))"


section \<open>Progress tracker: ProgressValidated\<close>

text \<open>
  \<open>evictBatches\<close> is the inner loop of lines 489-501, from \<open>batch\<close> up to
  \<open>limit\<close>: a batch found is removed from the table and destroyed, a batch not found is
  logged and skipped.
\<close>

function evictBatches :: "u64 \<Rightarrow> u64 \<Rightarrow> (u64 \<rightharpoonup> bytes) \<Rightarrow> (u64 \<rightharpoonup> bytes) \<times> event list" where
  "evictBatches batch limit m =
     (if batch < limit then
        (case m batch of
           None \<Rightarrow>
             (let (m', evs) = evictBatches (batch + 1) limit m
              in (m', LogWarn ''didn't find sequencer batch'' # evs))
         | Some cbyte \<Rightarrow>
             (let (m', evs) = evictBatches (batch + 1) limit (m(batch := None))
              in (m', DestroyCByteArray cbyte # evs)))
      else (m, []))"
  by pat_completeness auto
termination
proof (relation "measure (\<lambda>(batch, limit, m). unat limit - unat batch)")
  show "wf (measure (\<lambda>(batch :: u64, limit :: u64, m :: u64 \<rightharpoonup> bytes). unat limit - unat batch))"
    by simp
next
  fix batch limit :: u64 and m :: "u64 \<rightharpoonup> bytes"
  assume lt: "batch < limit"
  have "unat (batch + 1) = Suc (unat batch)"
    using lt by (metis add.commute max_word_wrap unatSuc word_order.extremum_strict)
  then show "((batch + 1, limit, m), batch, limit, m)
      \<in> measure (\<lambda>(batch, limit, m). unat limit - unat batch)"
    using lt by (simp add: word_less_nat_alt)
next
  fix batch limit :: u64 and m :: "u64 \<rightharpoonup> bytes" and x2 :: bytes
  assume lt: "batch < limit"
  have "unat (batch + 1) = Suc (unat batch)"
    using lt by (metis add.commute max_word_wrap unatSuc word_order.extremum_strict)
  then show "((batch + 1, limit, m(batch := None)), batch, limit, m)
      \<in> measure (\<lambda>(batch, limit, m). unat limit - unat batch)"
    using lt by (simp add: word_less_nat_alt)
qed

declare evictBatches.simps [simp del]

text \<open>
  One iteration of the loop of lines 471-508: \<open>Inl\<close> is a return (with what it logs),
  \<open>Inr\<close> an advance.
\<close>

definition ProgressValidated_iter ::
  "blockValidatorGlobals \<Rightarrow> 'm BlockValidator \<Rightarrow>
   event list + (blockValidatorGlobals \<times> 'm BlockValidator \<times> event list)" where
  "ProgressValidated_iter g v =
     (case validationEntries g (posNext v) of
        None \<Rightarrow> Inl []
      | Some e \<Rightarrow>
          if \<not> Valid e then Inl []
          else if BlockNumber e \<noteq> blocksValidated v + 1 then
            Inl [LogError ''bad block number for validation entry'']
          else
            (let entries' = (validationEntries g)(posNext v := None);
                 (batches', evs) = evictBatches (batchNrValidated v) (SeqMsgNr e) (sequencerBatches g)
             in Inr (g\<lparr>validationEntries := entries', sequencerBatches := batches'\<rparr>,
                     v\<lparr>posNext := Pos e + 1, blocksValidated := BlockNumber e\<rparr>,
                     evs @ [SendProgress (BlockNumber e)])))"

text \<open>
  \<open>ProgressValidated\<close> (lines 468-509) repeats the iteration until it returns. Every
  advance deletes the entry it consumed, so the loop ends.
\<close>

function ProgressValidated ::
  "blockValidatorGlobals \<Rightarrow> 'm BlockValidator \<Rightarrow>
   blockValidatorGlobals \<times> 'm BlockValidator \<times> event list" where
  "ProgressValidated g v =
     (case ProgressValidated_iter g v of
        Inl evs \<Rightarrow> (g, v, evs)
      | Inr (g', v', evs) \<Rightarrow>
          (let (g'', v'', evs') = ProgressValidated g' v' in (g'', v'', evs @ evs')))"
  by pat_completeness auto
termination
proof (relation "measure (\<lambda>(g, v). card (dom (validationEntries g)))")
  show "wf (measure (\<lambda>(g :: blockValidatorGlobals, v :: 'm BlockValidator).
              card (dom (validationEntries g))))"
    by simp
next
  fix g :: blockValidatorGlobals and v :: "'m BlockValidator" and x2 g' y v' evs
  assume it: "ProgressValidated_iter g v = Inr x2" and x2: "(g', y) = x2" and y: "(v', evs) = y"
  from it x2 y obtain e where e: "validationEntries g (posNext v) = Some e"
    and g': "validationEntries g' = (validationEntries g)(posNext v := None)"
    by (auto simp: ProgressValidated_iter_def Let_def split: option.splits if_splits prod.splits)
  have "dom (validationEntries g') = dom (validationEntries g) - {posNext v}"
    by (simp add: g')
  moreover have "posNext v \<in> dom (validationEntries g)" using e by auto
  ultimately have "card (dom (validationEntries g')) < card (dom (validationEntries g))"
    using card_Diff1_less [of "dom (validationEntries g)" "posNext v"] by simp
  then show "((g', v'), g, v) \<in> measure (\<lambda>(g, v). card (dom (validationEntries g)))"
    by simp
qed

declare ProgressValidated.simps [simp del]

text \<open>
  \<open>published\<close> lists the values assigned to \<open>blocksValidated\<close> (line 503): every
  assignment is followed by the non-blocking send of the same value on \<open>progressChan\<close>.
  \<open>tracker_run\<close> is a sequence of calls of \<open>ProgressValidated\<close>, with an arbitrary
  change of the package-level tables by the other goroutines before each call; it returns
  every value \<open>blocksValidated\<close> takes after its initial one, in order. \<open>consecutive b xs\<close>
  says that \<open>xs\<close> counts up from \<open>b\<close> in steps of one.
\<close>

fun published :: "event list \<Rightarrow> u64 list" where
  "published [] = []"
| "published (SendProgress n # evs) = n # published evs"
| "published (ev # evs) = published evs"


fun consecutive :: "u64 \<Rightarrow> u64 list \<Rightarrow> bool" where
  "consecutive b [] = True"
| "consecutive b (x # xs) = (x = b + 1 \<and> consecutive x xs)"


section \<open>Start-up: the base machine cache\<close>

text \<open>
  \<open>cacheBaseMachineUntilHostIo\<close> (lines 544-618) and \<open>Start\<close> (lines 620-628). The
  operating system and the machine are parameters: \<open>startup_env\<close> gives the clock and the
  result of every call, \<open>startup_state\<close> holds the base machine and the content of the
  files, and the calls made are recorded in order. Times are in nanoseconds.

  Modelled from the spec: \<open>SerializeState\<close> and \<open>DeserializeAndReplaceState\<close> are
  methods of the machine, outside this file. Section 4.3 of the specification and the
  comment on line 591: a successful \<open>SerializeState\<close> leaves a complete snapshot at the
  path it is given, a failing one may leave a partial file there, and a failing
  \<open>DeserializeAndReplaceState\<close> leaves the machine as it was. \<open>os.Rename\<close> moves the
  content of the old path over the new one and removes the old path.
\<close>

datatype error = ErrNotExist | ErrIO string | ErrMachine string

record FileInfo =
  Name :: string
  ModTime :: int

datatype 'm file_content = Snapshot 'm | PartialWrite

datatype startup_event =
    MkdirAll string
  | ReadDir string
  | Remove string
  | Chtimes string
  | DeserializeAndReplaceState string
  | StepUntilHostIo
  | SerializeState string
  | Rename string string
  | StartLog string
  | StartProgressLoop
  | StartValidationLoop

record 'm startup_env =
  now :: int
  machineHash :: "'m \<Rightarrow> string"
  mkdirAllErr :: "error option"
  readDirRes :: "error + FileInfo list"
  removeErr :: "string \<Rightarrow> error option"
  chtimesErr :: "error option"
  deserializeRes :: "string + 'm"
  stepUntilHostIoRes :: "'m \<Rightarrow> string + 'm"
  serializeErr :: "error option"
  renameErr :: "error option"

record 'm startup_state =
  machine :: 'm
  files :: "string \<rightharpoonup> 'm file_content"

definition path_Join :: "string \<Rightarrow> string \<Rightarrow> string" where
  "path_Join dir name = dir @ ''/'' @ name"

definition day :: int where
  "day = 24 * 3600000000000"

text \<open>
  \<open>cleanCache\<close> is the loop over the directory listing (lines 558-571). \<open>cacheLookup\<close>
  is the function up to line 584: \<open>Inl\<close> is an error returned, \<open>Inr\<close> the final value
  of \<open>foundInCache\<close>. \<open>recomputeAndSave\<close> is the rest from line 600.
\<close>

fun cleanCache ::
  "'m startup_env \<Rightarrow> string \<Rightarrow> string \<Rightarrow> FileInfo list \<Rightarrow> bool \<Rightarrow> (string \<rightharpoonup> 'm file_content) \<Rightarrow>
   (error + bool) \<times> (string \<rightharpoonup> 'm file_content) \<times> startup_event list" where
  "cleanCache env cacheDir expectedName [] foundInCache fs = (Inr foundInCache, fs, [])"
| "cleanCache env cacheDir expectedName (file # rest) foundInCache fs =
     (if Name file = expectedName then cleanCache env cacheDir expectedName rest True fs
      else if ModTime file < now env - day then
        (case removeErr env (path_Join cacheDir (Name file)) of
           Some err \<Rightarrow>
             (Inl err, fs,
              [StartLog ''removing unknown old machine cache'', Remove (path_Join cacheDir (Name file))])
         | None \<Rightarrow>
             (let (r, fs', tr) = cleanCache env cacheDir expectedName rest foundInCache
                                   (fs(path_Join cacheDir (Name file) := None))
              in (r, fs', StartLog ''removing unknown old machine cache''
                          # Remove (path_Join cacheDir (Name file)) # tr)))
      else
        (let (r, fs', tr) = cleanCache env cacheDir expectedName rest foundInCache fs
         in (r, fs', StartLog ''keeping unknown old machine cache'' # tr)))"

definition cacheFile :: "'m startup_env \<Rightarrow> BlockValidatorConfig \<Rightarrow> 'm \<Rightarrow> string" where
  "cacheFile env cfg mach =
     path_Join (path_Join (RootPath cfg) (InitialMachineCachePath cfg)) (machineHash env mach @ ''.bin'')"

definition cacheLookup ::
  "'m startup_env \<Rightarrow> BlockValidatorConfig \<Rightarrow> 'm startup_state \<Rightarrow>
   (error + bool) \<times> (string \<rightharpoonup> 'm file_content) \<times> startup_event list" where
  "cacheLookup env cfg st =
     (let expectedName = machineHash env (machine st) @ ''.bin'';
          cacheDir = path_Join (RootPath cfg) (InitialMachineCachePath cfg)
      in case mkdirAllErr env of
           Some err \<Rightarrow> (Inl err, files st, [MkdirAll cacheDir])
         | None \<Rightarrow>
             (case readDirRes env of
                Inl err \<Rightarrow> (Inl err, files st, [MkdirAll cacheDir, ReadDir cacheDir])
              | Inr infos \<Rightarrow>
                  (case cleanCache env cacheDir expectedName infos False (files st) of
                     (Inl err, fs, tr) \<Rightarrow> (Inl err, fs, [MkdirAll cacheDir, ReadDir cacheDir] @ tr)
                   | (Inr foundInCache, fs, tr) \<Rightarrow>
                       (let file = path_Join cacheDir expectedName;
                            pre = [MkdirAll cacheDir, ReadDir cacheDir] @ tr
                        in if foundInCache then
                             (case chtimesErr env of
                                None \<Rightarrow> (Inr True, fs, pre @ [Chtimes file])
                              | Some err \<Rightarrow>
                                  if err = ErrNotExist then (Inr False, fs, pre @ [Chtimes file])
                                  else (Inl err, fs, pre @ [Chtimes file]))
                           else (Inr False, fs, pre)))))"

definition recomputeAndSave ::
  "'m startup_env \<Rightarrow> string \<Rightarrow> 'm \<Rightarrow> (string \<rightharpoonup> 'm file_content) \<Rightarrow>
   error option \<times> 'm startup_state \<times> startup_event list" where
  "recomputeAndSave env file mach fs =
     (case stepUntilHostIoRes env mach of
        Inl err \<Rightarrow> (Some (ErrMachine err), \<lparr>machine = mach, files = fs\<rparr>, [StepUntilHostIo])
      | Inr mach' \<Rightarrow>
          (let wipFile = file @ ''.wip'' in
           case serializeErr env of
             Some err \<Rightarrow>
               (Some err, \<lparr>machine = mach', files = fs(wipFile \<mapsto> PartialWrite)\<rparr>,
                [StepUntilHostIo, StartLog ''saving initial machine cache'', SerializeState wipFile])
           | None \<Rightarrow>
               (let fs1 = fs(wipFile \<mapsto> Snapshot mach') in
                case renameErr env of
                  Some err \<Rightarrow>
                    (Some err, \<lparr>machine = mach', files = fs1\<rparr>,
                     [StepUntilHostIo, StartLog ''saving initial machine cache'',
                      SerializeState wipFile, Rename wipFile file])
                | None \<Rightarrow>
                    (None, \<lparr>machine = mach', files = fs1(file := fs1 wipFile, wipFile := None)\<rparr>,
                     [StepUntilHostIo, StartLog ''saving initial machine cache'',
                      SerializeState wipFile, Rename wipFile file]))))"

definition cacheBaseMachineUntilHostIo ::
  "'m startup_env \<Rightarrow> BlockValidatorConfig \<Rightarrow> 'm startup_state \<Rightarrow>
   error option \<times> 'm startup_state \<times> startup_event list" where
  "cacheBaseMachineUntilHostIo env cfg st =
     (let file = cacheFile env cfg (machine st) in
      case cacheLookup env cfg st of
        (Inl err, fs, tr) \<Rightarrow> (Some err, st\<lparr>files := fs\<rparr>, tr)
      | (Inr foundInCache, fs, tr) \<Rightarrow>
          if foundInCache then
            (case deserializeRes env of
               Inr mach' \<Rightarrow>
                 (None, \<lparr>machine = mach', files = fs\<rparr>,
                  tr @ [StartLog ''found cached initial machine'', DeserializeAndReplaceState file])
             | Inl err \<Rightarrow>
                 (let (r, st', tr') = recomputeAndSave env file (machine st) fs
                  in (r, st', tr @ [StartLog ''found cached initial machine'',
                                    DeserializeAndReplaceState file,
                                    StartLog ''failed to load initial machine cache; will reexecute'']
                              @ tr')))
          else
            (let (r, st', tr') = recomputeAndSave env file (machine st) fs
             in (r, st', tr @ [StartLog ''didn't find initial machine in cache''] @ tr')))"

definition Start ::
  "'m startup_env \<Rightarrow> BlockValidatorConfig \<Rightarrow> 'm startup_state \<Rightarrow>
   error option \<times> 'm startup_state \<times> startup_event list" where
  "Start env cfg st =
     (case cacheBaseMachineUntilHostIo env cfg st of
        (Some err, st', tr) \<Rightarrow> (Some err, st', tr)
      | (None, st', tr) \<Rightarrow> (None, st', tr @ [StartProgressLoop, StartValidationLoop]))"


section \<open>Concrete inputs\<close>

text \<open>
  A small machine for running the model on concrete inputs: its state is the number of
  chunks it still runs and the global state it will end in. \<open>demo_cancel_ops\<close> is the
  same machine under a cancelled context: every \<open>Step\<close> returns \<open>context.Canceled\<close>.
\<close>

definition demo_ops :: "(nat \<times> GlobalState) machine_ops" where
  "demo_ops = \<lparr>Clone = (\<lambda>m. m), AddPreimages = (\<lambda>ps m. m), SetGlobalState = (\<lambda>gs m. m),
     AddSequencerInboxMessage = (\<lambda>n b m. m), AddDelayedInboxMessage = (\<lambda>n b m. m),
     IsRunning = (\<lambda>m. 0 < fst m), Step = (\<lambda>m. Inr (fst m - 1, snd m)),
     GetGlobalState = snd\<rparr>"

definition demo_cancel_ops :: "(nat \<times> GlobalState) machine_ops" where
  "demo_cancel_ops = demo_ops\<lparr>Step := (\<lambda>m. Inl Canceled)\<rparr>"

definition demo_config :: "u64 list \<Rightarrow> BlockValidatorConfig" where
  "demo_config toRecord = \<lparr>RootPath = ''root'', ProverBinPath = ''lib/replay.wasm'',
     ModulePaths = [], OutputPath = ''output'',
     InitialMachineCachePath = ''initial-machine-cache'',
     ConcurrentRunsLimit = 2, BlocksToRecord = toRecord\<rparr>"

definition demo_header :: Header where
  "demo_header = \<lparr>ParentHash = 7, Number = 5, Nonce = 0, Extra = []\<rparr>"

definition demo_entry :: validationEntry where
  "demo_entry = \<lparr>BlockNumber = 5, PrevBlockHash = 7, BlockHash = 9, BlockHeader = demo_header,
     Preimages = [3], HasDelayedMsg = False, DelayedMsgNr = 0, SeqMsgNr = 0, Pos = 4,
     Running = False, MsgsAllocated = [\<lparr>data = [1], seq = 0\<rparr>], Valid = False\<rparr>"

definition demo_rec :: PosInSequencer where
  "demo_rec = \<lparr>PosInSequencer.Pos = 4, BatchNum = 1, PosInBatch = 0, BatchAfter = 1, PosAfter = 1\<rparr>"

definition demo_globals :: blockValidatorGlobals where
  "demo_globals = \<lparr>initialized = True, validationEntries = [4 \<mapsto> demo_entry],
     sequencerBatches = [1 \<mapsto> [0]], inboxTracker = Some (\<lambda>n. Inr [])\<rparr>"

definition demo_validator :: "u64 list \<Rightarrow> Hash \<Rightarrow> (nat \<times> GlobalState) BlockValidator" where
  "demo_validator toRecord endHash = \<lparr>preimageCache = [3 \<mapsto> ([1, 2], 1)], posToValidate = [],
     posNext = 4, batchNrValidated = 0, blocksValidated = 4, posNextSend = 5,
     baseMachine = (2, \<lparr>gsBatch = 1, gsPosInBatch = 1, gsBlockHash = endHash\<rparr>),
     config = demo_config toRecord, atomicValidationsRunning = 1, concurrentRunsLimit = 2\<rparr>"

definition demo_hashOf :: "Header \<Rightarrow> Hash" where
  "demo_hashOf h = of_nat (Number h) + 100"

definition demo_prev_header :: Header where
  "demo_prev_header = \<lparr>ParentHash = 6, Number = 4, Nonce = 0, Extra = []\<rparr>"

definition demo_block :: "u64 \<Rightarrow> u64 \<Rightarrow> u64 \<Rightarrow> validationEntry" where
  "demo_block n p s = \<lparr>BlockNumber = n, PrevBlockHash = 0, BlockHash = 0, BlockHeader = demo_header,
     Preimages = [], HasDelayedMsg = False, DelayedMsgNr = 0, SeqMsgNr = s, Pos = p,
     Running = True, MsgsAllocated = [], Valid = True\<rparr>"

definition demo_tracker_globals :: blockValidatorGlobals where
  "demo_tracker_globals = \<lparr>initialized = True,
     validationEntries = [0 \<mapsto> demo_block 1 0 1, 1 \<mapsto> demo_block 2 1 2],
     sequencerBatches = [0 \<mapsto> [7], 1 \<mapsto> [8], 2 \<mapsto> [9]], inboxTracker = None\<rparr>"

definition demo_fresh_validator :: "(nat \<times> GlobalState) BlockValidator" where
  "demo_fresh_validator = \<lparr>preimageCache = Map.empty, posToValidate = [], posNext = 0,
     batchNrValidated = 0, blocksValidated = 0, posNextSend = 0,
     baseMachine = (2, \<lparr>gsBatch = 0, gsPosInBatch = 0, gsBlockHash = 0\<rparr>),
     config = demo_config [], atomicValidationsRunning = 0, concurrentRunsLimit = 2\<rparr>"

text \<open>
  Two blocks submitted out of order: block 2 at position 1 first, then the position records
  of both, then block 1 at position 0.
\<close>

definition demo_genesis :: Header where
  "demo_genesis = \<lparr>ParentHash = 0, Number = 0, Nonce = 0, Extra = []\<rparr>"

definition demo_h1 :: Header where
  "demo_h1 = \<lparr>ParentHash = 100, Number = 1, Nonce = 0, Extra = []\<rparr>"

definition demo_h2 :: Header where
  "demo_h2 = \<lparr>ParentHash = 101, Number = 2, Nonce = 0, Extra = []\<rparr>"

definition demo_pos :: "u64 \<Rightarrow> PosInSequencer" where
  "demo_pos p = \<lparr>PosInSequencer.Pos = p, BatchNum = 0, PosInBatch = p, BatchAfter = 0, PosAfter = p + 1\<rparr>"

definition demo_actions :: "action list" where
  "demo_actions =
     [DoPrepareBlock demo_h2 demo_h1 [] 1,
      DoProcessBatches [(0, [7])] [demo_pos 1, demo_pos 0],
      DoSendValidations,
      DoPrepareBlock demo_h1 demo_genesis [] 0,
      DoSendValidations]"

text \<open>
  A cache directory with a stale file of another machine and a file under the expected
  name that does not deserialize.
\<close>

definition demo_startup_env :: "string + nat \<Rightarrow> nat startup_env" where
  "demo_startup_env deser = \<lparr>now = 100 * day, machineHash = (\<lambda>m. ''0xabc''),
     mkdirAllErr = None,
     readDirRes = Inr [\<lparr>Name = ''0xold.bin'', ModTime = 0\<rparr>, \<lparr>Name = ''0xabc.bin'', ModTime = 99 * day\<rparr>],
     removeErr = (\<lambda>p. None), chtimesErr = None, deserializeRes = deser,
     stepUntilHostIoRes = (\<lambda>m. Inr (Suc m)), serializeErr = None, renameErr = None\<rparr>"

definition demo_startup_state :: "nat startup_state" where
  "demo_startup_state = \<lparr>machine = 0,
     files = [''root/initial-machine-cache/0xold.bin'' \<mapsto> Snapshot 7,
              ''root/initial-machine-cache/0xabc.bin'' \<mapsto> PartialWrite]\<rparr>"

section \<open>Properties of validate\<close>

lemmas demo_defs = validate_def validate_setup_def validate_finish_def demo_ops_def
  demo_cancel_ops_def demo_globals_def demo_validator_def demo_entry_def demo_rec_def
  demo_config_def CreateGlobalState_def ParseGlobalState_def

lemma validate_setup_Inr:
  assumes "validate_setup ops g v e startRec endRec = Inr (mach, e1, ev)"
  shows "e1 = e\<lparr>SeqMsgNr := BatchNum startRec, Running := True\<rparr>"
    and "ev = [LogInfo ''starting validation for block'']"
    and "initialized g" and "Pos e = PosInSequencer.Pos endRec"
  using assms
  by (auto simp: validate_setup_def Let_def split: if_splits sum.splits option.splits)

lemma run_machine_events:
  "run_machine ops fuel mach = Some (lev, r) \<Longrightarrow> set lev \<subseteq> {LogInfo ''validation''}"
proof (induction fuel arbitrary: mach lev)
  case 0
  then show ?case by (simp split: if_splits)
next
  case (Suc fuel)
  then show ?case
    by (fastforce split: if_splits sum.splits option.splits)
qed

lemma scanBlocksToRecord_True: "scanBlocksToRecord xs n True = True"
  by (induction xs) auto

lemma scanBlocksToRecord_False:
  "scanBlocksToRecord xs n False = (n \<in> set (takeWhile (\<lambda>b. b \<le> n) xs))"
  by (induction xs) auto

lemma scanBlocksToRecord_eq:
  "scanBlocksToRecord xs n w = (w \<or> n \<in> set (takeWhile (\<lambda>b. b \<le> n) xs))"
  by (cases w) (simp_all add: scanBlocksToRecord_True scanBlocksToRecord_False)

lemma takeWhile_le_sorted:
  "sorted xs \<Longrightarrow> (n \<in> set (takeWhile (\<lambda>b. b \<le> n) xs)) = ((n::u64) \<in> set xs)"
  by (induction xs) auto

lemma demo_setup:
  "validate_setup demo_ops demo_globals (demo_validator toRecord h) demo_entry demo_rec demo_rec =
     Inr ((2, \<lparr>gsBatch = 1, gsPosInBatch = 1, gsBlockHash = h\<rparr>),
          demo_entry\<lparr>SeqMsgNr := 1, Running := True\<rparr>,
          [LogInfo ''starting validation for block''])"
  by (simp add: demo_defs)

lemma demo_run:
  "run_machine demo_ops 3 (2, gs) =
     Some ([LogInfo ''validation'', LogInfo ''validation''], Inr (0, gs))"
  by (simp add: demo_ops_def numeral_3_eq_3)

lemma demo_parse:
  "ParseGlobalState (GetGlobalState demo_ops (0, \<lparr>gsBatch = 1, gsPosInBatch = 1, gsBlockHash = h\<rparr>))
     = (1, 1, h)"
  by (simp add: demo_ops_def ParseGlobalState_def)

text \<open>
  C1. Whenever the machine of a validation runs to completion, the verdict of the task
  is exactly the conjunction of the three comparisons of the parsed end state with
  \<open>end.BatchAfter\<close>, \<open>end.PosAfter\<close> and \<open>entry.BlockHash\<close>: the task returns (and
  marks the entry valid) when the conjunction holds, and panics with "validation failed"
  when it does not.
\<close>

theorem validate_verdict:
  assumes "validate_setup ops g v e startRec endRec = Inr (mach, e1, ev)"
    and "run_machine ops fuel mach = Some (lev, Inr mEnd)"
    and "ParseGlobalState (GetGlobalState ops mEnd) = (resBatch, resPosInBatch, resHash)"
  shows "\<exists>r. validate ops wtf fuel g v e startRec endRec = Some r
     \<and> (outcome r = Returned) =
         (resBatch = BatchAfter endRec \<and> resPosInBatch = PosAfter endRec \<and> resHash = BlockHash e)
     \<and> (outcome r = Panicked) =
         (\<not> (resBatch = BatchAfter endRec \<and> resPosInBatch = PosAfter endRec \<and> resHash = BlockHash e))
     \<and> (Panic ''validation failed. quitting..'' \<in> set (events r)) =
         (\<not> (resBatch = BatchAfter endRec \<and> resPosInBatch = PosAfter endRec \<and> resHash = BlockHash e))
     \<and> Valid (entry r) =
         (Valid e \<or> (resBatch = BatchAfter endRec \<and> resPosInBatch = PosAfter endRec \<and> resHash = BlockHash e))"
proof -
  have e1: "e1 = e\<lparr>SeqMsgNr := BatchNum startRec, Running := True\<rparr>"
    and ev: "ev = [LogInfo ''starting validation for block'']"
    using validate_setup_Inr [OF assms(1)] by simp_all
  have lev: "Panic ''validation failed. quitting..'' \<notin> set lev"
    using run_machine_events [OF assms(2)] by auto
  show ?thesis
    using assms lev
    by (auto simp: validate_def validate_finish_def Let_def e1 ev split: prod.splits)
qed

theorem validate_verdict_witness:
  "validate_setup demo_ops demo_globals (demo_validator [] 9) demo_entry demo_rec demo_rec =
     Inr ((2, \<lparr>gsBatch = 1, gsPosInBatch = 1, gsBlockHash = 9\<rparr>),
          demo_entry\<lparr>SeqMsgNr := 1, Running := True\<rparr>,
          [LogInfo ''starting validation for block''])
   \<and> run_machine demo_ops 3 (2, \<lparr>gsBatch = 1, gsPosInBatch = 1, gsBlockHash = 9\<rparr>) =
     Some ([LogInfo ''validation'', LogInfo ''validation''],
           Inr (0, \<lparr>gsBatch = 1, gsPosInBatch = 1, gsBlockHash = 9\<rparr>))
   \<and> (\<exists>r. validate demo_ops (\<lambda>e s t. None) 3 demo_globals (demo_validator [] 9)
              demo_entry demo_rec demo_rec = Some r
          \<and> outcome r = Returned \<and> Valid (entry r))"
proof -
  have c: "BatchAfter demo_rec = 1" "PosAfter demo_rec = 1" "BlockHash demo_entry = 9"
    by (simp_all add: demo_entry_def demo_rec_def)
  show ?thesis
    using validate_verdict [where wtf = "\<lambda>e s t. None", OF demo_setup [of "[]" 9] demo_run demo_parse]
          demo_setup [of "[]" 9] demo_run [of "\<lparr>gsBatch = 1, gsPosInBatch = 1, gsBlockHash = 9\<rparr>"]
    by (auto simp: c)
qed

text \<open>
  C2. When the end state of a completed machine run disagrees with the claimed
  post-state, the task calls \<open>writeToFile\<close> first (logging its error, if it has one),
  then logs the expected and actual batch, position and hash, and then panics. Nothing
  else happens: the validator is unchanged, the entry is not marked valid, and neither
  the progress tracker nor the dispatcher is signalled.
\<close>

theorem validate_mismatch_aborts_after_write:
  assumes "validate_setup ops g v e startRec endRec = Inr (mach, e1, ev)"
    and "run_machine ops fuel mach = Some (lev, Inr mEnd)"
    and "ParseGlobalState (GetGlobalState ops mEnd) = (resBatch, resPosInBatch, resHash)"
    and "\<not> (resBatch = BatchAfter endRec \<and> resPosInBatch = PosAfter endRec \<and> resHash = BlockHash e)"
  shows "validate ops wtf fuel g v e startRec endRec =
     Some \<lparr>outcome = Panicked, validator = v, entry = e1,
           events = ev @ lev @
             WriteToFile (BlockNumber e) #
             (case wtf e1 startRec endRec of
                None \<Rightarrow> []
              | Some err \<Rightarrow> [LogError ''failed to write file'']) @
             [LogValidationFailed (PosInSequencer.Pos startRec) (BatchAfter endRec) resBatch
                (PosAfter endRec) resPosInBatch (BlockHash e) resHash,
              LogError ''validation failed'',
              Panic ''validation failed. quitting..'',
              FreePreimages]\<rparr>"
proof -
  have e1: "e1 = e\<lparr>SeqMsgNr := BatchNum startRec, Running := True\<rparr>"
    using validate_setup_Inr [OF assms(1)] by simp
  show ?thesis
    using assms
    by (auto simp: validate_def validate_finish_def Let_def e1 scanBlocksToRecord_True
             split: prod.splits)
qed

theorem validate_mismatch_aborts_after_write_witness:
  "validate_setup demo_ops demo_globals (demo_validator [] 8) demo_entry demo_rec demo_rec =
     Inr ((2, \<lparr>gsBatch = 1, gsPosInBatch = 1, gsBlockHash = 8\<rparr>),
          demo_entry\<lparr>SeqMsgNr := 1, Running := True\<rparr>,
          [LogInfo ''starting validation for block''])
   \<and> run_machine demo_ops 3 (2, \<lparr>gsBatch = 1, gsPosInBatch = 1, gsBlockHash = 8\<rparr>) =
     Some ([LogInfo ''validation'', LogInfo ''validation''],
           Inr (0, \<lparr>gsBatch = 1, gsPosInBatch = 1, gsBlockHash = 8\<rparr>))
   \<and> (8 :: Hash) \<noteq> BlockHash demo_entry
   \<and> validate demo_ops (\<lambda>e s t. None) 3 demo_globals (demo_validator [] 8)
        demo_entry demo_rec demo_rec =
      Some \<lparr>outcome = Panicked, validator = demo_validator [] 8,
            entry = demo_entry\<lparr>SeqMsgNr := 1, Running := True\<rparr>,
            events = [LogInfo ''starting validation for block'', LogInfo ''validation'',
                      LogInfo ''validation'', WriteToFile 5,
                      LogValidationFailed 4 1 1 1 1 9 8, LogError ''validation failed'',
                      Panic ''validation failed. quitting..'', FreePreimages]\<rparr>"
proof -
  have c: "BatchAfter demo_rec = 1" "PosAfter demo_rec = 1" "BlockHash demo_entry = 9"
    "PosInSequencer.Pos demo_rec = 4" "BlockNumber demo_entry = 5"
    by (simp_all add: demo_entry_def demo_rec_def)
  have ne: "\<not> ((1 :: u64) = BatchAfter demo_rec \<and> (1 :: u64) = PosAfter demo_rec
                \<and> (8 :: Hash) = BlockHash demo_entry)"
    by (simp add: demo_entry_def)
  show ?thesis
    using validate_mismatch_aborts_after_write
            [where wtf = "\<lambda>e s t. None", OF demo_setup [of "[]" 8] demo_run demo_parse ne]
          demo_setup [of "[]" 8] demo_run [of "\<lparr>gsBatch = 1, gsPosInBatch = 1, gsBlockHash = 8\<rparr>"]
    by (simp add: c)
qed

text \<open>
  C4 (as amended). For a completed machine run, \<open>writeToFile\<close> is called exactly when the
  verdict is negative or the block number occurs in \<open>config.BlocksToRecord\<close> before any
  number greater than it: the scan of lines 378-386 stops at the first greater number.
  For a list in ascending order this is membership in the list.
\<close>

theorem validate_writes_artifact_iff:
  assumes "validate_setup ops g v e startRec endRec = Inr (mach, e1, ev)"
    and "run_machine ops fuel mach = Some (lev, Inr mEnd)"
    and "ParseGlobalState (GetGlobalState ops mEnd) = (resBatch, resPosInBatch, resHash)"
  shows "\<exists>r. validate ops wtf fuel g v e startRec endRec = Some r
     \<and> (WriteToFile (BlockNumber e) \<in> set (events r)) =
         (\<not> (resBatch = BatchAfter endRec \<and> resPosInBatch = PosAfter endRec \<and> resHash = BlockHash e)
          \<or> BlockNumber e \<in> set (takeWhile (\<lambda>blockNr. blockNr \<le> BlockNumber e) (BlocksToRecord (config v))))
     \<and> (sorted (BlocksToRecord (config v)) \<longrightarrow>
         (WriteToFile (BlockNumber e) \<in> set (events r)) =
         (\<not> (resBatch = BatchAfter endRec \<and> resPosInBatch = PosAfter endRec \<and> resHash = BlockHash e)
          \<or> BlockNumber e \<in> set (BlocksToRecord (config v))))"
proof -
  have e1: "e1 = e\<lparr>SeqMsgNr := BatchNum startRec, Running := True\<rparr>"
    and ev: "ev = [LogInfo ''starting validation for block'']"
    using validate_setup_Inr [OF assms(1)] by simp_all
  have lev: "WriteToFile (BlockNumber e) \<notin> set lev"
    using run_machine_events [OF assms(2)] by auto
  have "\<exists>r. validate ops wtf fuel g v e startRec endRec = Some r
     \<and> (WriteToFile (BlockNumber e) \<in> set (events r)) =
         (\<not> (resBatch = BatchAfter endRec \<and> resPosInBatch = PosAfter endRec \<and> resHash = BlockHash e)
          \<or> BlockNumber e \<in> set (takeWhile (\<lambda>blockNr. blockNr \<le> BlockNumber e) (BlocksToRecord (config v))))"
    using assms lev
    by (auto simp: validate_def validate_finish_def Let_def e1 ev scanBlocksToRecord_eq
             split: prod.splits option.splits)
  then show ?thesis
    by (auto simp: takeWhile_le_sorted)
qed

theorem validate_writes_artifact_iff_witness:
  "validate_setup demo_ops demo_globals (demo_validator [5, 10] 9) demo_entry demo_rec demo_rec =
     Inr ((2, \<lparr>gsBatch = 1, gsPosInBatch = 1, gsBlockHash = 9\<rparr>),
          demo_entry\<lparr>SeqMsgNr := 1, Running := True\<rparr>,
          [LogInfo ''starting validation for block''])
   \<and> run_machine demo_ops 3 (2, \<lparr>gsBatch = 1, gsPosInBatch = 1, gsBlockHash = 9\<rparr>) =
     Some ([LogInfo ''validation'', LogInfo ''validation''],
           Inr (0, \<lparr>gsBatch = 1, gsPosInBatch = 1, gsBlockHash = 9\<rparr>))
   \<and> sorted (BlocksToRecord (config (demo_validator [5, 10] 9)))
   \<and> (\<exists>r. validate demo_ops (\<lambda>e s t. None) 3 demo_globals (demo_validator [5, 10] 9)
              demo_entry demo_rec demo_rec = Some r
          \<and> WriteToFile 5 \<in> set (events r))"
proof -
  have c: "BatchAfter demo_rec = 1" "PosAfter demo_rec = 1" "BlockHash demo_entry = 9"
    "BlockNumber demo_entry = 5"
    by (simp_all add: demo_entry_def demo_rec_def)
  have srt: "sorted (BlocksToRecord (config (demo_validator [5, 10] 9)))"
    "BlocksToRecord (config (demo_validator [5, 10] 9)) = [5, 10]"
    by (simp_all add: demo_validator_def demo_config_def word_le_nat_alt)
  show ?thesis
    using validate_writes_artifact_iff
            [where wtf = "\<lambda>e s t. None", OF demo_setup [of "[5, 10]" 9] demo_run demo_parse]
          demo_setup [of "[5, 10]" 9]
          demo_run [of "\<lparr>gsBatch = 1, gsPosInBatch = 1, gsBlockHash = 9\<rparr>"] srt(1)
    by (auto simp: c srt(2))
qed

text \<open>
  With \<open>BlocksToRecord = [10, 5]\<close> a valid block 5 is in the list, and the scan stops at
  10: the run writes no artifact.
\<close>

theorem validate_unsorted_record_list_counterexample:
  "map_option events
     (validate demo_ops (\<lambda>e s t. None) 3 demo_globals (demo_validator [10, 5] 9)
        demo_entry demo_rec demo_rec) =
     Some [LogInfo ''starting validation for block'', LogInfo ''validation'',
           LogInfo ''validation'', DestroyCByteArray [1], LogInfo ''validation succeeded'',
           SendCheckProgress, SendSendValidations, FreePreimages]
   \<and> BlockNumber demo_entry \<in> set (BlocksToRecord (config (demo_validator [10, 5] 9)))
   \<and> scanBlocksToRecord (BlocksToRecord (config (demo_validator [10, 5] 9)))
         (BlockNumber demo_entry) False = False"
  by (simp add: demo_defs numeral_3_eq_3)

text \<open>
  Every cancelled or timed-out task returns with the validator and the entry as the set-up
  left them.
\<close>

lemma validate_cancelled:
  assumes "validate_setup ops g v e startRec endRec = Inr (mach, e1, ev)"
    and "run_machine ops fuel mach = Some (lev, Inl err)"
    and "err = Canceled \<or> err = DeadlineExceeded"
  shows "validate ops wtf fuel g v e startRec endRec =
     Some \<lparr>outcome = Returned, validator = v, entry = e1, events = ev @ lev @ [FreePreimages]\<rparr>"
  using assms by (auto simp: validate_def)

text \<open>
  C8. Evaluation of \<open>validate\<close> on a task whose first \<open>Step\<close> returns
  \<open>context.Canceled\<close>: the task returns at line 361 with the entry not valid, and with
  \<open>atomicValidationsRunning\<close> still 1, the preimage still referenced once and the
  delayed-message buffer still allocated. Only the deferred \<open>C.free\<close> runs.
\<close>

theorem validate_cancelled_releases_nothing:
  "map_option (\<lambda>r. (outcome r, atomicValidationsRunning (validator r),
                    preimageCache (validator r) 3, MsgsAllocated (entry r),
                    Valid (entry r), events r))
     (validate demo_cancel_ops (\<lambda>e s t. None) 3 demo_globals (demo_validator [] 9)
        demo_entry demo_rec demo_rec) =
   Some (Returned, 1, Some ([1, 2], 1), [\<lparr>data = [1], seq = 0\<rparr>], False,
         [LogInfo ''starting validation for block'', FreePreimages])"
  by (simp add: demo_defs numeral_3_eq_3)


section \<open>Properties of construction and submission\<close>

lemma NewBlockValidator_calls_initialized:
  "initialized g \<Longrightarrow>
   NewBlockValidator_calls loaded numCPU g calls =
     replicate (length calls) (Inl ''creating block validator when one exists'')"
  by (induction calls) (auto simp: NewBlockValidator_def)

lemma NewBlockValidator_Inr:
  "NewBlockValidator loaded numCPU g inbox cfg = Inr (g', v) \<Longrightarrow> \<not> initialized g \<and> initialized g'"
  by (auto simp: NewBlockValidator_def Let_def split: if_splits)

text \<open>
  C10. In any sequence of calls of \<open>NewBlockValidator\<close> in one process at most one call
  returns a validator. A call on an initialized package state panics with "creating block
  validator when one exists"; the first call on a fresh state returns a validator and sets
  the flag, and every later call panics.
\<close>

theorem NewBlockValidator_at_most_one:
  "length (filter (\<lambda>r. \<not> isl r) (NewBlockValidator_calls loaded numCPU g calls)) \<le> 1
   \<and> (initialized g \<longrightarrow>
        NewBlockValidator loaded numCPU g inbox cfg = Inl ''creating block validator when one exists'')
   \<and> (\<not> initialized g \<longrightarrow>
        (\<exists>g' v. NewBlockValidator loaded numCPU g inbox cfg = Inr (g', v) \<and> initialized g'
           \<and> NewBlockValidator_calls loaded numCPU g ((inbox, cfg) # calls) =
               Inr v # replicate (length calls) (Inl ''creating block validator when one exists'')))"
proof -
  have a: "length (filter (\<lambda>r. \<not> isl r) (NewBlockValidator_calls loaded numCPU g calls)) \<le> 1"
  proof (cases calls)
    case Nil
    then show ?thesis by simp
  next
    case (Cons c cs)
    obtain inbox' cfg' where c: "c = (inbox', cfg')" by (cases c)
    show ?thesis
    proof (cases "initialized g")
      case True
      then show ?thesis by (simp add: NewBlockValidator_calls_initialized)
    next
      case False
      then show ?thesis
        by (simp add: Cons c NewBlockValidator_def Let_def NewBlockValidator_calls_initialized)
    qed
  qed
  have b: "initialized g \<longrightarrow>
        NewBlockValidator loaded numCPU g inbox cfg = Inl ''creating block validator when one exists''"
    by (simp add: NewBlockValidator_def)
  have c: "\<not> initialized g \<longrightarrow>
        (\<exists>g' v. NewBlockValidator loaded numCPU g inbox cfg = Inr (g', v) \<and> initialized g'
           \<and> NewBlockValidator_calls loaded numCPU g ((inbox, cfg) # calls) =
               Inr v # replicate (length calls) (Inl ''creating block validator when one exists''))"
    by (simp add: NewBlockValidator_def Let_def NewBlockValidator_calls_initialized)
  show ?thesis using a b c by blast
qed

theorem NewBlockValidator_at_most_one_witness:
  "\<not> initialized validatorStatic0
   \<and> map isl (NewBlockValidator_calls (0 :: nat) 8 validatorStatic0
        [(\<lambda>n. Inr [], demo_config []), (\<lambda>n. Inr [], demo_config []), (\<lambda>n. Inr [], demo_config [])])
      = [False, True, True]
   \<and> initialized (validatorStatic0\<lparr>initialized := True\<rparr>)
   \<and> NewBlockValidator (0 :: nat) 8 (validatorStatic0\<lparr>initialized := True\<rparr>) (\<lambda>n. Inr []) (demo_config [])
      = Inl ''creating block validator when one exists''"
proof -
  have n: "\<not> initialized validatorStatic0" by (simp add: validatorStatic0_def)
  have i: "initialized (validatorStatic0\<lparr>initialized := True\<rparr>)" by simp
  note t1 = NewBlockValidator_at_most_one [of "0 :: nat" 8 validatorStatic0
      "[(\<lambda>n. Inr [], demo_config []), (\<lambda>n. Inr [], demo_config [])]" "\<lambda>n. Inr []" "demo_config []"]
  note t2 = NewBlockValidator_at_most_one [of "0 :: nat" 8 "validatorStatic0\<lparr>initialized := True\<rparr>"
      "[]" "\<lambda>n. Inr []" "demo_config []"]
  from t1 n obtain g' v where
    "NewBlockValidator_calls (0 :: nat) 8 validatorStatic0
        ((\<lambda>n. Inr [], demo_config []) # [(\<lambda>n. Inr [], demo_config []), (\<lambda>n. Inr [], demo_config [])]) =
       Inr v # replicate (length [(\<lambda>n::u64. (Inr [] :: string + bytes), demo_config []), (\<lambda>n. Inr [], demo_config [])])
                 (Inl ''creating block validator when one exists'')"
    by blast
  then have m: "map isl (NewBlockValidator_calls (0 :: nat) 8 validatorStatic0
        [(\<lambda>n. Inr [], demo_config []), (\<lambda>n. Inr [], demo_config []), (\<lambda>n. Inr [], demo_config [])])
      = [False, True, True]"
    by (simp add: numeral_2_eq_2)
  from t2 i have "NewBlockValidator (0 :: nat) 8 (validatorStatic0\<lparr>initialized := True\<rparr>) (\<lambda>n. Inr []) (demo_config [])
      = Inl ''creating block validator when one exists''"
    by blast
  then show ?thesis using n i m by blast
qed

text \<open>
  With a wrong parent hash \<open>prepareBlock\<close> logs and stores no entry, and the preimage
  cache is the one \<open>PourToCache\<close> returned.
\<close>

lemma prepareBlock_wrong_parent:
  "ParentHash header \<noteq> hashOf prevHeader \<Longrightarrow>
   prepareBlock hashOf g v header prevHeader preimages pos =
     (g, v\<lparr>preimageCache := snd (PourToCache (preimageCache v) preimages)\<rparr>,
      [LogError ''prepareBlock: wrong headers''])"
  by (simp add: prepareBlock_def Let_def split: prod.splits)

text \<open>
  C5. Evaluation of \<open>prepareBlock\<close> on a header whose parent hash is not the hash of the
  previous header, with one preimage under key 11 and an empty cache: no entry is stored
  and the error is logged, and the cache now holds key 11 with reference count 1. The
  preimages are ingested on line 201, before the check of line 204, and nothing releases
  them.
\<close>

theorem prepareBlock_wrong_parent_pours_preimages:
  "ParentHash demo_header \<noteq> demo_hashOf demo_prev_header
   \<and> preimageCache demo_fresh_validator 11 = None
   \<and> (case prepareBlock demo_hashOf validatorStatic0 demo_fresh_validator demo_header
             demo_prev_header [(11, [4])] 0 of
        (g', v', evs) \<Rightarrow>
          validationEntries g' 0 = None \<and> preimageCache v' 11 = Some ([4], 1)
          \<and> evs = [LogError ''prepareBlock: wrong headers''])"
  by (simp add: prepareBlock_def demo_header_def demo_prev_header_def demo_hashOf_def
        demo_fresh_validator_def validatorStatic0_def)


section \<open>Properties of the progress tracker\<close>





lemma published_append: "published (xs @ ys) = published xs @ published ys"
  by (induction xs rule: published.induct) auto

lemma evictBatches_published: "published (snd (evictBatches batch limit m)) = []"
proof (induction batch limit m rule: evictBatches.induct)
  case (1 batch limit m)
  show ?case
    using "1.IH"
    by (subst evictBatches.simps) (auto simp: fun_upd_def split: option.splits prod.splits)
qed

lemma ProgressValidated_iter_Inr:
  assumes "ProgressValidated_iter g v = Inr (g', v', evs)"
  shows "\<exists>e. validationEntries g (posNext v) = Some e \<and> Valid e
            \<and> BlockNumber e = blocksValidated v + 1
            \<and> posNext v' = Pos e + 1
            \<and> validationEntries g' = (validationEntries g)(posNext v := None)"
    and "blocksValidated v' = blocksValidated v + 1"
    and "batchNrValidated v' = batchNrValidated v"
    and "published evs = [blocksValidated v + 1]"
  using assms evictBatches_published
  by (auto simp: ProgressValidated_iter_def Let_def published_append
           split: option.splits if_splits prod.splits
           dest: arg_cong [where f = "\<lambda>p. published (snd p)"])

lemma ProgressValidated_iter_Inl:
  assumes "ProgressValidated_iter g v = Inl evs"
  shows "published evs = []"
    and "evs = [] \<or> evs = [LogError ''bad block number for validation entry'']"
    and "\<not> (\<exists>e. validationEntries g (posNext v) = Some e \<and> Valid e
              \<and> BlockNumber e = blocksValidated v + 1)"
  using assms
  by (auto simp: ProgressValidated_iter_def Let_def split: option.splits if_splits prod.splits)

lemma ProgressValidated_consecutive:
  "ProgressValidated g v = (g', v', evs) \<Longrightarrow>
     consecutive (blocksValidated v) (published evs)
   \<and> blocksValidated v' = last (blocksValidated v # published evs)
   \<and> batchNrValidated v' = batchNrValidated v"
proof (induction g v arbitrary: g' v' evs rule: ProgressValidated.induct)
  case (1 g v)
  show ?case
  proof (cases "ProgressValidated_iter g v")
    case (Inl evs0)
    then have "g' = g" "v' = v" "evs = evs0"
      using "1.prems" by (simp_all add: ProgressValidated.simps [of g v])
    then show ?thesis using ProgressValidated_iter_Inl(1) [OF Inl] by simp
  next
    case (Inr x2)
    obtain g1 v1 evs1 where x2: "x2 = (g1, v1, evs1)" by (cases x2) auto
    obtain g2 v2 evs2 where rec: "ProgressValidated g1 v1 = (g2, v2, evs2)"
      by (cases "ProgressValidated g1 v1") auto
    have res: "g' = g2" "v' = v2" "evs = evs1 @ evs2"
      using "1.prems" Inr x2 rec by (simp_all add: ProgressValidated.simps [of g v])
    note it = ProgressValidated_iter_Inr [OF Inr [unfolded x2]]
    have ih: "consecutive (blocksValidated v1) (published evs2)
        \<and> blocksValidated v2 = last (blocksValidated v1 # published evs2)
        \<and> batchNrValidated v2 = batchNrValidated v1"
      using "1.IH" [OF Inr x2 [symmetric] refl rec] .
    show ?thesis
      using ih it(2,3,4) by (simp add: res published_append)
  qed
qed


text \<open>
  No run of \<open>ProgressValidated\<close> changes \<open>batchNrValidated\<close>: the field is read on
  line 489 and assigned nowhere.
\<close>

lemma ProgressValidated_batchNrValidated:
  "ProgressValidated g v = (g', v', evs) \<Longrightarrow> batchNrValidated v' = batchNrValidated v"
  using ProgressValidated_consecutive by blast

text \<open>
  C6. Evaluation of \<open>ProgressValidated\<close> on two valid entries, block 1 with
  \<open>SeqMsgNr = 1\<close> and block 2 with \<open>SeqMsgNr = 2\<close>, and batches 0, 1 and 2 in the
  registry: batches 0 and 1 are removed and destroyed while \<open>batchNrValidated\<close> is 0 and
  stays 0, and the second step scans from 0 again, not from 1: it looks for batch 0 a
  second time and logs that it is missing.
\<close>

theorem ProgressValidated_never_advances_batchNrValidated:
  "(case ProgressValidated demo_tracker_globals demo_fresh_validator of
      (g', v', evs) \<Rightarrow>
        sequencerBatches g' 0 = None \<and> sequencerBatches g' 1 = None
        \<and> sequencerBatches g' 2 = Some [9]
        \<and> batchNrValidated v' = 0 \<and> blocksValidated v' = 2 \<and> posNext v' = 2
        \<and> evs = [DestroyCByteArray [7], SendProgress 1,
                  LogWarn ''didn't find sequencer batch'', DestroyCByteArray [8], SendProgress 2])"
  by (simp add: ProgressValidated.simps ProgressValidated_iter_def evictBatches.simps
        demo_tracker_globals_def demo_fresh_validator_def demo_block_def)







section \<open>Properties of the dispatcher\<close>

lemma word_less_succ: "(x :: u64) \<noteq> - 1 \<Longrightarrow> x < x + 1"
proof -
  assume "x \<noteq> - 1"
  then have "unat (x + 1) = Suc (unat x)"
    by (metis add.commute max_word_wrap unatSuc)
  then show ?thesis by (simp add: word_less_nat_alt)
qed

lemma sorted_hd_le_nth:
  assumes "sorted (map PosInSequencer.Pos q)" and "idx < length q"
  shows "PosInSequencer.Pos (hd q) \<le> PosInSequencer.Pos (q ! idx)"
proof -
  have ne: "q \<noteq> []" using assms(2) by auto
  then have h: "hd q = q ! 0" by (simp add: hd_conv_nth)
  have "map PosInSequencer.Pos q ! 0 \<le> map PosInSequencer.Pos q ! idx"
    using assms by (intro sorted_nth_mono) simp_all
  moreover have "map PosInSequencer.Pos q ! 0 = PosInSequencer.Pos (q ! 0)"
    using ne by (simp add: nth_map)
  ultimately show ?thesis using assms(2) h by simp
qed

lemma sorted_map_drop:
  "sorted (map PosInSequencer.Pos q) \<Longrightarrow> sorted (map PosInSequencer.Pos (drop n q))"
  by (simp add: sorted_wrt_drop drop_map [symmetric] del: drop_map)

lemma sendValidations_loop_step:
  assumes "sendValidations_loop g v = (v', d # ds)"
  shows "\<exists>e idx. \<not> word_sle (concurrentRunsLimit v) (atomicValidationsRunning v)
      \<and> posToValidate v \<noteq> []
      \<and> PosInSequencer.Pos (hd (posToValidate v)) = posNextSend v
      \<and> validationEntries g (posNextSend v) = Some e
      \<and> idx = StupidSearchPos (posToValidate v) (Pos e)
      \<and> idx < length (posToValidate v)
      \<and> PosInSequencer.Pos (posToValidate v ! idx) = Pos e
      \<and> d = (e, hd (posToValidate v), posToValidate v ! idx)
      \<and> sendValidations_loop g
           (v\<lparr>atomicValidationsRunning := atomicValidationsRunning v + 1,
              posNextSend := Pos e + 1,
              posToValidate := drop (idx + 1) (posToValidate v)\<rparr>) = (v', ds)"
  using assms
  by (subst (asm) sendValidations_loop.simps)
     (auto simp: Let_def split: if_splits option.splits prod.splits)

lemma sendValidations_loop_Nil:
  assumes "sendValidations_loop g v = (v', [])"
  shows "v' = v"
  using assms
  by (subst (asm) sendValidations_loop.simps)
     (auto simp: Let_def split: if_splits option.splits prod.splits)

lemma sendValidations_loop_order:
  "sorted (map PosInSequencer.Pos (posToValidate v)) \<Longrightarrow>
   \<forall>r\<in>set (posToValidate v). PosInSequencer.Pos r \<noteq> - 1 \<Longrightarrow>
   sendValidations_loop g v = (v', ds) \<Longrightarrow>
     posNextSend v \<le> posNextSend v'
   \<and> (\<forall>d\<in>set ds. posNextSend v \<le> Pos (fst d) \<and> Pos (fst d) < posNextSend v')
   \<and> sorted_wrt (<) (map (\<lambda>d. Pos (fst d)) ds)
   \<and> set (posToValidate v') \<subseteq> set (posToValidate v)"
proof (induction ds arbitrary: v)
  case Nil
  then show ?case using sendValidations_loop_Nil [of g v v'] by simp
next
  case (Cons d ds)
  from sendValidations_loop_step [OF Cons.prems(3)] obtain e idx where
    hd: "PosInSequencer.Pos (hd (posToValidate v)) = posNextSend v"
    and idx: "idx < length (posToValidate v)"
    and pe: "PosInSequencer.Pos (posToValidate v ! idx) = Pos e"
    and d: "d = (e, hd (posToValidate v), posToValidate v ! idx)"
    and rec: "sendValidations_loop g
           (v\<lparr>atomicValidationsRunning := atomicValidationsRunning v + 1,
              posNextSend := Pos e + 1,
              posToValidate := drop (idx + 1) (posToValidate v)\<rparr>) = (v', ds)"
    by blast
  let ?v1 = "v\<lparr>atomicValidationsRunning := atomicValidationsRunning v + 1,
              posNextSend := Pos e + 1,
              posToValidate := drop (idx + 1) (posToValidate v)\<rparr>"
  have le: "posNextSend v \<le> Pos e"
    using sorted_hd_le_nth [OF Cons.prems(1) idx] hd pe by simp
  have "posToValidate v ! idx \<in> set (posToValidate v)" using idx by simp
  then have "Pos e \<noteq> - 1" using Cons.prems(2) pe by metis
  then have lt: "Pos e < Pos e + 1" by (rule word_less_succ)
  have s1: "sorted (map PosInSequencer.Pos (posToValidate ?v1))"
    using Cons.prems(1) by (simp add: sorted_map_drop del: drop_map)
  have sub: "set (posToValidate ?v1) \<subseteq> set (posToValidate v)"
    by (simp add: set_drop_subset)
  then have n1: "\<forall>r\<in>set (posToValidate ?v1). PosInSequencer.Pos r \<noteq> - 1"
    using Cons.prems(2) by blast
  have ih: "posNextSend ?v1 \<le> posNextSend v'
   \<and> (\<forall>d\<in>set ds. posNextSend ?v1 \<le> Pos (fst d) \<and> Pos (fst d) < posNextSend v')
   \<and> sorted_wrt (<) (map (\<lambda>d. Pos (fst d)) ds)
   \<and> set (posToValidate v') \<subseteq> set (posToValidate ?v1)"
    using Cons.IH [OF s1 n1 rec] .
  have p1: "posNextSend ?v1 = Pos e + 1" by simp
  show ?case
    using ih le lt sub unfolding p1 d by (auto simp: d)
qed

lemma sendValidations_order:
  assumes "\<forall>r\<in>set (posToValidate v). PosInSequencer.Pos r \<noteq> - 1"
    and "sendValidations g v = (v', ds)"
  shows "posNextSend v \<le> posNextSend v'
   \<and> (\<forall>d\<in>set ds. posNextSend v \<le> Pos (fst d) \<and> Pos (fst d) < posNextSend v')
   \<and> sorted_wrt (<) (map (\<lambda>d. Pos (fst d)) ds)
   \<and> set (posToValidate v') \<subseteq> set (posToValidate v)"
proof -
  let ?q = "sort_key PosInSequencer.Pos (posToValidate v)"
  let ?v1 = "v\<lparr>posToValidate := drop (StupidSearchPos ?q (posNextSend v)) ?q\<rparr>"
  have s: "sorted (map PosInSequencer.Pos (posToValidate ?v1))"
    by (simp add: sorted_map_drop del: drop_map)
  have sub: "set (posToValidate ?v1) \<subseteq> set (posToValidate v)"
    using set_drop_subset [of "StupidSearchPos ?q (posNextSend v)" ?q] by simp
  then have n: "\<forall>r\<in>set (posToValidate ?v1). PosInSequencer.Pos r \<noteq> - 1"
    using assms(1) by blast
  have "sendValidations_loop g ?v1 = (v', ds)"
    using assms(2) by (simp add: sendValidations_def Let_def)
  from sendValidations_loop_order [OF s n this] sub show ?thesis by auto
qed

lemma ProcessBatches_frame:
  "ProcessBatches g v batches posData = (g', v', evs) \<Longrightarrow>
   posNextSend v' = posNextSend v \<and> posToValidate v' = posToValidate v @ posData"
  by (auto simp: ProcessBatches_def)

lemma prepareBlock_frame:
  "prepareBlock hashOf g v header prevHeader preimages pos = (g', v', evs) \<Longrightarrow>
   posNextSend v' = posNextSend v \<and> posToValidate v' = posToValidate v"
  by (auto simp: prepareBlock_def Let_def split: prod.splits if_splits)

lemma dispatcher_run_order:
  "\<forall>r\<in>set (posToValidate v). PosInSequencer.Pos r \<noteq> - 1 \<Longrightarrow>
   \<forall>a\<in>set acts. \<forall>r\<in>set (submitted a). PosInSequencer.Pos r \<noteq> - 1 \<Longrightarrow>
   dispatcher_run hashOf acts g v = (g', v', ds) \<Longrightarrow>
     posNextSend v \<le> posNextSend v'
   \<and> (\<forall>d\<in>set ds. posNextSend v \<le> Pos (fst d) \<and> Pos (fst d) < posNextSend v')
   \<and> sorted_wrt (<) (map (\<lambda>d. Pos (fst d)) ds)"
proof (induction acts arbitrary: g v g' v' ds)
  case Nil
  then show ?case by simp
next
  case (Cons a acts)
  have rest: "\<forall>a\<in>set acts. \<forall>r\<in>set (submitted a). PosInSequencer.Pos r \<noteq> - 1"
    using Cons.prems(2) by simp
  show ?case
  proof (cases a)
    case (DoProcessBatches batches posData)
    obtain g1 v1 evs where pb: "ProcessBatches g v batches posData = (g1, v1, evs)"
      by (cases "ProcessBatches g v batches posData") auto
    have run: "dispatcher_run hashOf acts g1 v1 = (g', v', ds)"
      using Cons.prems(3) pb by (simp add: DoProcessBatches)
    have "\<forall>r\<in>set posData. PosInSequencer.Pos r \<noteq> - 1"
      using Cons.prems(2) by (simp add: DoProcessBatches)
    then have n1: "\<forall>r\<in>set (posToValidate v1). PosInSequencer.Pos r \<noteq> - 1"
      using Cons.prems(1) ProcessBatches_frame [OF pb] by auto
    show ?thesis
      using Cons.IH [OF n1 rest run] ProcessBatches_frame [OF pb] by simp
  next
    case (DoPrepareBlock header prevHeader preimages pos)
    obtain g1 v1 evs where pb: "prepareBlock hashOf g v header prevHeader preimages pos = (g1, v1, evs)"
      by (cases "prepareBlock hashOf g v header prevHeader preimages pos") auto
    have run: "dispatcher_run hashOf acts g1 v1 = (g', v', ds)"
      using Cons.prems(3) pb by (simp add: DoPrepareBlock)
    have n1: "\<forall>r\<in>set (posToValidate v1). PosInSequencer.Pos r \<noteq> - 1"
      using Cons.prems(1) prepareBlock_frame [OF pb] by auto
    show ?thesis
      using Cons.IH [OF n1 rest run] prepareBlock_frame [OF pb] by simp
  next
    case DoValidationDone
    let ?v1 = "v\<lparr>atomicValidationsRunning := atomicValidationsRunning v - 1\<rparr>"
    have run: "dispatcher_run hashOf acts g ?v1 = (g', v', ds)"
      using Cons.prems(3) by (simp add: DoValidationDone)
    have n1: "\<forall>r\<in>set (posToValidate ?v1). PosInSequencer.Pos r \<noteq> - 1"
      using Cons.prems(1) by simp
    show ?thesis
      using Cons.IH [OF n1 rest run] by simp
  next
    case DoSendValidations
    obtain v1 ds1 where sv: "sendValidations g v = (v1, ds1)"
      by (cases "sendValidations g v") auto
    obtain g2 v2 ds2 where run: "dispatcher_run hashOf acts g v1 = (g2, v2, ds2)"
      by (cases "dispatcher_run hashOf acts g v1") auto
    have res: "v' = v2" "ds = ds1 @ ds2"
      using Cons.prems(3) sv run by (simp_all add: DoSendValidations)
    note o1 = sendValidations_order [OF Cons.prems(1) sv]
    have n1: "\<forall>r\<in>set (posToValidate v1). PosInSequencer.Pos r \<noteq> - 1"
      using Cons.prems(1) o1 by blast
    note o2 = Cons.IH [OF n1 rest run]
    have cross: "\<forall>x\<in>set ds1. \<forall>y\<in>set ds2. Pos (fst x) < Pos (fst y)"
      using o1 o2 by (meson order.strict_trans2)
    have "sorted_wrt (<) (map (\<lambda>d. Pos (fst d)) (ds1 @ ds2))"
      using o1 o2 cross by (simp add: sorted_wrt_append)
    moreover have "posNextSend v \<le> posNextSend v2" using o1 o2 by auto
    moreover have "\<forall>d\<in>set (ds1 @ ds2). posNextSend v \<le> Pos (fst d) \<and> Pos (fst d) < posNextSend v2"
      using o1 o2 by (auto intro: order.trans order.strict_trans2)
    ultimately show ?thesis by (simp add: res)
  qed
qed

text \<open>
  C7. Over any run of the dispatcher in which no position record carries the largest
  64-bit position, \<open>posNextSend\<close> never decreases, every task started has a position
  between the old and the new \<open>posNextSend\<close>, and the positions of the tasks started are
  strictly increasing in the order of dispatch, whatever the order of submission. Every
  dispatch of the loop happens with \<open>atomicValidationsRunning\<close> below
  \<open>concurrentRunsLimit\<close>, the head of the queue at \<open>posNextSend\<close> and the entry at
  \<open>posNextSend\<close> present, and the loop continues with \<open>posNextSend\<close> one above the
  position of the entry.
\<close>

theorem sendValidations_dispatch_in_pos_order:
  assumes "\<forall>r\<in>set (posToValidate v). PosInSequencer.Pos r \<noteq> - 1"
    and "\<forall>a\<in>set acts. \<forall>r\<in>set (submitted a). PosInSequencer.Pos r \<noteq> - 1"
    and "dispatcher_run hashOf acts g v = (g', v', ds)"
  shows "posNextSend v \<le> posNextSend v'
   \<and> (\<forall>d\<in>set ds. posNextSend v \<le> Pos (fst d) \<and> Pos (fst d) < posNextSend v')
   \<and> sorted_wrt (<) (map (\<lambda>d. Pos (fst d)) ds)
   \<and> (\<forall>g0 (v0 :: 'm BlockValidator) v1 d0 ds0.
        sendValidations_loop g0 v0 = (v1, d0 # ds0) \<longrightarrow>
          word_sless (atomicValidationsRunning v0) (concurrentRunsLimit v0)
        \<and> posToValidate v0 \<noteq> []
        \<and> PosInSequencer.Pos (hd (posToValidate v0)) = posNextSend v0
        \<and> validationEntries g0 (posNextSend v0) = Some (fst d0)
        \<and> fst (snd d0) = hd (posToValidate v0)
        \<and> PosInSequencer.Pos (snd (snd d0)) = Pos (fst d0)
        \<and> (\<exists>idx. sendValidations_loop g0
               (v0\<lparr>atomicValidationsRunning := atomicValidationsRunning v0 + 1,
                   posNextSend := Pos (fst d0) + 1,
                   posToValidate := drop (idx + 1) (posToValidate v0)\<rparr>) = (v1, ds0)))"
proof -
  have step: "\<forall>g0 (v0 :: 'm BlockValidator) v1 d0 ds0.
        sendValidations_loop g0 v0 = (v1, d0 # ds0) \<longrightarrow>
          word_sless (atomicValidationsRunning v0) (concurrentRunsLimit v0)
        \<and> posToValidate v0 \<noteq> []
        \<and> PosInSequencer.Pos (hd (posToValidate v0)) = posNextSend v0
        \<and> validationEntries g0 (posNextSend v0) = Some (fst d0)
        \<and> fst (snd d0) = hd (posToValidate v0)
        \<and> PosInSequencer.Pos (snd (snd d0)) = Pos (fst d0)
        \<and> (\<exists>idx. sendValidations_loop g0
               (v0\<lparr>atomicValidationsRunning := atomicValidationsRunning v0 + 1,
                   posNextSend := Pos (fst d0) + 1,
                   posToValidate := drop (idx + 1) (posToValidate v0)\<rparr>) = (v1, ds0))"
  proof (intro allI impI)
    fix g0 and v0 v1 :: "'m BlockValidator" and d0 ds0
    assume l: "sendValidations_loop g0 v0 = (v1, d0 # ds0)"
    from sendValidations_loop_step [OF l] obtain e idx where
      s: "\<not> word_sle (concurrentRunsLimit v0) (atomicValidationsRunning v0)"
        "posToValidate v0 \<noteq> []"
        "PosInSequencer.Pos (hd (posToValidate v0)) = posNextSend v0"
        "validationEntries g0 (posNextSend v0) = Some e"
        "PosInSequencer.Pos (posToValidate v0 ! idx) = Pos e"
        "d0 = (e, hd (posToValidate v0), posToValidate v0 ! idx)"
        "sendValidations_loop g0
           (v0\<lparr>atomicValidationsRunning := atomicValidationsRunning v0 + 1,
               posNextSend := Pos e + 1,
               posToValidate := drop (idx + 1) (posToValidate v0)\<rparr>) = (v1, ds0)"
      by blast
    have "word_sless (atomicValidationsRunning v0) (concurrentRunsLimit v0)"
      using s(1) by (simp add: word_sless_alt word_sle_eq)
    then show "word_sless (atomicValidationsRunning v0) (concurrentRunsLimit v0)
        \<and> posToValidate v0 \<noteq> []
        \<and> PosInSequencer.Pos (hd (posToValidate v0)) = posNextSend v0
        \<and> validationEntries g0 (posNextSend v0) = Some (fst d0)
        \<and> fst (snd d0) = hd (posToValidate v0)
        \<and> PosInSequencer.Pos (snd (snd d0)) = Pos (fst d0)
        \<and> (\<exists>idx. sendValidations_loop g0
               (v0\<lparr>atomicValidationsRunning := atomicValidationsRunning v0 + 1,
                   posNextSend := Pos (fst d0) + 1,
                   posToValidate := drop (idx + 1) (posToValidate v0)\<rparr>) = (v1, ds0))"
      using s(2-7) by auto
  qed
  show ?thesis
    using dispatcher_run_order [OF assms] step by blast
qed


lemma demo_dispatch:
  "(case dispatcher_run demo_hashOf demo_actions validatorStatic0 demo_fresh_validator of
      (g', v', ds) \<Rightarrow> (map (\<lambda>d. Pos (fst d)) ds, posNextSend v', atomicValidationsRunning v'))
   = ([0, 1], 2, 2)"
  by code_simp


lemma demo_loop:
  "(case sendValidations_loop demo_tracker_globals
           (demo_fresh_validator\<lparr>posToValidate := [demo_pos 0, demo_pos 1]\<rparr>) of
      (v1, ds) \<Rightarrow> (map (\<lambda>d. (Pos (fst d), PosInSequencer.Pos (fst (snd d)),
                              PosInSequencer.Pos (snd (snd d)))) ds,
                    posNextSend v1, atomicValidationsRunning v1, posToValidate v1))
   = ([(0, 0, 0), (1, 1, 1)], 2, 2, [])"
  by code_simp

theorem sendValidations_dispatch_in_pos_order_witness:
  "posToValidate demo_fresh_validator = []
   \<and> concat (map submitted demo_actions) = [demo_pos 1, demo_pos 0]
   \<and> PosInSequencer.Pos (demo_pos 1) = 1 \<and> PosInSequencer.Pos (demo_pos 0) = 0
   \<and> map (\<lambda>d. Pos (fst d))
        (snd (snd (dispatcher_run demo_hashOf demo_actions validatorStatic0 demo_fresh_validator)))
      = [0, 1]
   \<and> sorted_wrt (<) (map (\<lambda>d. Pos (fst d))
        (snd (snd (dispatcher_run demo_hashOf demo_actions validatorStatic0 demo_fresh_validator))))
   \<and> posNextSend demo_fresh_validator
        \<le> posNextSend (fst (snd (dispatcher_run demo_hashOf demo_actions validatorStatic0
                                   demo_fresh_validator)))
   \<and> length (snd (sendValidations_loop demo_tracker_globals
                (demo_fresh_validator\<lparr>posToValidate := [demo_pos 0, demo_pos 1]\<rparr>))) = 2
   \<and> word_sless (atomicValidationsRunning demo_fresh_validator)
                 (concurrentRunsLimit demo_fresh_validator)
   \<and> validationEntries demo_tracker_globals (posNextSend demo_fresh_validator)
        = Some (demo_block 1 0 1)"
proof -
  have q: "posToValidate demo_fresh_validator = []"
    by (simp add: demo_fresh_validator_def)
  have sub: "concat (map submitted demo_actions) = [demo_pos 1, demo_pos 0]"
    by (simp add: demo_actions_def)
  have p: "PosInSequencer.Pos (demo_pos 1) = 1" "PosInSequencer.Pos (demo_pos 0) = 0"
    by (simp_all add: demo_pos_def)
  have h1: "\<forall>r\<in>set (posToValidate demo_fresh_validator). PosInSequencer.Pos r \<noteq> - 1"
    by (simp add: q)
  have "\<forall>r\<in>set (concat (map submitted demo_actions)). PosInSequencer.Pos r \<noteq> - 1"
    unfolding sub by (simp add: p)
  then have h2: "\<forall>a\<in>set demo_actions. \<forall>r\<in>set (submitted a). PosInSequencer.Pos r \<noteq> - 1"
    by auto
  have run: "dispatcher_run demo_hashOf demo_actions validatorStatic0 demo_fresh_validator =
      (fst (dispatcher_run demo_hashOf demo_actions validatorStatic0 demo_fresh_validator),
       fst (snd (dispatcher_run demo_hashOf demo_actions validatorStatic0 demo_fresh_validator)),
       snd (snd (dispatcher_run demo_hashOf demo_actions validatorStatic0 demo_fresh_validator)))"
    by simp
  have ev: "map (\<lambda>d. Pos (fst d))
        (snd (snd (dispatcher_run demo_hashOf demo_actions validatorStatic0 demo_fresh_validator)))
      = [0, 1]"
    using demo_dispatch by (simp split: prod.splits)
  have len: "length (snd (sendValidations_loop demo_tracker_globals
                (demo_fresh_validator\<lparr>posToValidate := [demo_pos 0, demo_pos 1]\<rparr>))) = 2"
  proof -
    obtain w ds where l: "sendValidations_loop demo_tracker_globals
        (demo_fresh_validator\<lparr>posToValidate := [demo_pos 0, demo_pos 1]\<rparr>) = (w, ds)"
      by (cases "sendValidations_loop demo_tracker_globals
                   (demo_fresh_validator\<lparr>posToValidate := [demo_pos 0, demo_pos 1]\<rparr>)") auto
    from demo_loop have "map (\<lambda>d. (Pos (fst d), PosInSequencer.Pos (fst (snd d)),
                              PosInSequencer.Pos (snd (snd d)))) ds = [(0, 0, 0), (1, 1, 1)]"
      by (simp add: l)
    then have "length (map (\<lambda>d. (Pos (fst d), PosInSequencer.Pos (fst (snd d)),
                              PosInSequencer.Pos (snd (snd d)))) ds) = length [(0 :: u64, 0 :: u64, 0 :: u64), (1, 1, 1)]"
      by (rule arg_cong)
    then show ?thesis by (simp add: l)
  qed
  then obtain v1 d0 ds0 where loop: "sendValidations_loop demo_tracker_globals
       (demo_fresh_validator\<lparr>posToValidate := [demo_pos 0, demo_pos 1]\<rparr>) = (v1, d0 # ds0)"
    by (cases "sendValidations_loop demo_tracker_globals
                 (demo_fresh_validator\<lparr>posToValidate := [demo_pos 0, demo_pos 1]\<rparr>)";
        cases "snd (sendValidations_loop demo_tracker_globals
                 (demo_fresh_validator\<lparr>posToValidate := [demo_pos 0, demo_pos 1]\<rparr>))") auto
  note t = sendValidations_dispatch_in_pos_order [OF h1 h2 run]
  from t loop have s: "word_sless (atomicValidationsRunning
         (demo_fresh_validator\<lparr>posToValidate := [demo_pos 0, demo_pos 1]\<rparr>))
       (concurrentRunsLimit (demo_fresh_validator\<lparr>posToValidate := [demo_pos 0, demo_pos 1]\<rparr>))"
    and e: "validationEntries demo_tracker_globals
         (posNextSend (demo_fresh_validator\<lparr>posToValidate := [demo_pos 0, demo_pos 1]\<rparr>))
       = Some (fst d0)"
    by blast+
  have e0: "validationEntries demo_tracker_globals (posNextSend demo_fresh_validator)
        = Some (demo_block 1 0 1)"
    by (simp add: demo_tracker_globals_def demo_fresh_validator_def)
  from s have s0: "word_sless (atomicValidationsRunning demo_fresh_validator)
                 (concurrentRunsLimit demo_fresh_validator)"
    by simp
  from t have le: "posNextSend demo_fresh_validator
        \<le> posNextSend (fst (snd (dispatcher_run demo_hashOf demo_actions validatorStatic0
                                   demo_fresh_validator)))"
    and srt: "sorted_wrt (<) (map (\<lambda>d. Pos (fst d))
        (snd (snd (dispatcher_run demo_hashOf demo_actions validatorStatic0 demo_fresh_validator))))"
    by blast+
  show ?thesis
    using q sub p ev srt le len s0 e0 by blast
qed


section \<open>Properties of start-up\<close>

lemma recomputeAndSave_file:
  "recomputeAndSave env file mach fs = (r, st', tr) \<Longrightarrow>
   files st' file = fs file \<or> (\<exists>mach'. files st' file = Some (Snapshot mach'))"
  by (auto simp: recomputeAndSave_def Let_def split: sum.splits option.splits)

text \<open>
  C9. When the cache lookup ends without an error and either finds no file under the
  expected name or finds one that fails to deserialize, \<open>Start\<close> does not return the
  deserialization error: it runs \<open>StepUntilHostIo\<close>, serializes to the path with suffix
  \<open>.wip\<close> and renames it to the canonical path, stopping at the first of these three
  calls that fails and returning its error. \<open>Start\<close> succeeds exactly when all three
  succeed, and then starts both loops. The canonical path holds either what it held
  after the lookup or a complete snapshot.
\<close>

theorem Start_recomputes_on_miss:
  assumes "cacheLookup env cfg st = (Inr foundInCache, fs, tr)"
    and "\<not> foundInCache \<or> deserializeRes env = Inl derr"
  shows "Start env cfg st =
     (let file = cacheFile env cfg (machine st);
          wipFile = file @ ''.wip'';
          pre = tr @ (if foundInCache
                      then [StartLog ''found cached initial machine'',
                            DeserializeAndReplaceState file,
                            StartLog ''failed to load initial machine cache; will reexecute'']
                      else [StartLog ''didn't find initial machine in cache''])
      in case stepUntilHostIoRes env (machine st) of
           Inl err \<Rightarrow>
             (Some (ErrMachine err), \<lparr>machine = machine st, files = fs\<rparr>, pre @ [StepUntilHostIo])
         | Inr mach' \<Rightarrow>
             (case serializeErr env of
                Some err \<Rightarrow>
                  (Some err, \<lparr>machine = mach', files = fs(wipFile \<mapsto> PartialWrite)\<rparr>,
                   pre @ [StepUntilHostIo, StartLog ''saving initial machine cache'',
                          SerializeState wipFile])
              | None \<Rightarrow>
                  (case renameErr env of
                     Some err \<Rightarrow>
                       (Some err, \<lparr>machine = mach', files = fs(wipFile \<mapsto> Snapshot mach')\<rparr>,
                        pre @ [StepUntilHostIo, StartLog ''saving initial machine cache'',
                               SerializeState wipFile, Rename wipFile file])
                   | None \<Rightarrow>
                       (None,
                        \<lparr>machine = mach', files = fs(file \<mapsto> Snapshot mach', wipFile := None)\<rparr>,
                        pre @ [StepUntilHostIo, StartLog ''saving initial machine cache'',
                               SerializeState wipFile, Rename wipFile file,
                               StartProgressLoop, StartValidationLoop]))))
   \<and> (files (fst (snd (Start env cfg st))) (cacheFile env cfg (machine st))
         = fs (cacheFile env cfg (machine st))
       \<or> (\<exists>mach'. files (fst (snd (Start env cfg st))) (cacheFile env cfg (machine st))
                     = Some (Snapshot mach')))
   \<and> (fst (Start env cfg st) = None) =
       (\<exists>mach'. stepUntilHostIoRes env (machine st) = Inr mach'
                 \<and> serializeErr env = None \<and> renameErr env = None)"
proof -
  have ne: "cacheFile env cfg (machine st) @ ''.wip'' \<noteq> cacheFile env cfg (machine st)"
    by simp
  have upd: "\<And>(f :: string \<rightharpoonup> 'a file_content) w x v. w \<noteq> x \<Longrightarrow>
      (f(w \<mapsto> v))(x := (f(w \<mapsto> v)) w, w := None) = f(x \<mapsto> v, w := None)"
    by (auto simp: fun_eq_iff)
  show ?thesis
    using assms ne upd [OF ne]
    by (auto simp: Start_def cacheBaseMachineUntilHostIo_def recomputeAndSave_def Let_def
             split: sum.splits option.splits)
qed

lemma demo_cacheLookup:
  "cacheLookup (demo_startup_env (Inl ''bad'')) (demo_config []) demo_startup_state =
     (Inr True,
      (files demo_startup_state)(''root/initial-machine-cache/0xold.bin'' := None),
      [MkdirAll ''root/initial-machine-cache'', ReadDir ''root/initial-machine-cache'',
       StartLog ''removing unknown old machine cache'',
       Remove ''root/initial-machine-cache/0xold.bin'',
       Chtimes ''root/initial-machine-cache/0xabc.bin''])"
  by (simp add: cacheLookup_def demo_startup_env_def demo_config_def demo_startup_state_def
        path_Join_def day_def Let_def)

theorem Start_recomputes_on_miss_witness:
  "fst (cacheLookup (demo_startup_env (Inl ''bad'')) (demo_config []) demo_startup_state) = Inr True
   \<and> deserializeRes (demo_startup_env (Inl ''bad'')) = Inl ''bad''
   \<and> files demo_startup_state ''root/initial-machine-cache/0xabc.bin'' = Some PartialWrite
   \<and> (case Start (demo_startup_env (Inl ''bad'')) (demo_config []) demo_startup_state of
        (r, st', tr) \<Rightarrow>
          r = None \<and> machine st' = 1
          \<and> files st' ''root/initial-machine-cache/0xabc.bin'' = Some (Snapshot 1)
          \<and> files st' ''root/initial-machine-cache/0xabc.bin.wip'' = None
          \<and> drop 5 tr =
              [StartLog ''found cached initial machine'',
               DeserializeAndReplaceState ''root/initial-machine-cache/0xabc.bin'',
               StartLog ''failed to load initial machine cache; will reexecute'',
               StepUntilHostIo, StartLog ''saving initial machine cache'',
               SerializeState ''root/initial-machine-cache/0xabc.bin.wip'',
               Rename ''root/initial-machine-cache/0xabc.bin.wip''
                 ''root/initial-machine-cache/0xabc.bin'',
               StartProgressLoop, StartValidationLoop])"
proof -
  have d: "\<not> True \<or> deserializeRes (demo_startup_env (Inl ''bad'')) = Inl ''bad''"
    by (simp add: demo_startup_env_def)
  have f: "cacheFile (demo_startup_env (Inl ''bad'')) (demo_config []) (machine demo_startup_state)
      = ''root/initial-machine-cache/0xabc.bin''"
    by (simp add: cacheFile_def demo_startup_env_def demo_config_def path_Join_def)
  have e: "stepUntilHostIoRes (demo_startup_env (Inl ''bad'')) (machine demo_startup_state) = Inr 1"
    "serializeErr (demo_startup_env (Inl ''bad'')) = None"
    "renameErr (demo_startup_env (Inl ''bad'')) = None"
    "deserializeRes (demo_startup_env (Inl ''bad'')) = Inl ''bad''"
    by (simp_all add: demo_startup_env_def demo_startup_state_def)
  have p: "files demo_startup_state ''root/initial-machine-cache/0xabc.bin'' = Some PartialWrite"
    by (simp add: demo_startup_state_def)
  from Start_recomputes_on_miss [OF demo_cacheLookup d]
  have "Start (demo_startup_env (Inl ''bad'')) (demo_config []) demo_startup_state =
     (None,
      \<lparr>machine = 1,
       files = ((files demo_startup_state)(''root/initial-machine-cache/0xold.bin'' := None))
                 (''root/initial-machine-cache/0xabc.bin'' \<mapsto> Snapshot 1,
                  ''root/initial-machine-cache/0xabc.bin.wip'' := None)\<rparr>,
      [MkdirAll ''root/initial-machine-cache'', ReadDir ''root/initial-machine-cache'',
       StartLog ''removing unknown old machine cache'',
       Remove ''root/initial-machine-cache/0xold.bin'',
       Chtimes ''root/initial-machine-cache/0xabc.bin'',
       StartLog ''found cached initial machine'',
       DeserializeAndReplaceState ''root/initial-machine-cache/0xabc.bin'',
       StartLog ''failed to load initial machine cache; will reexecute'',
       StepUntilHostIo, StartLog ''saving initial machine cache'',
       SerializeState ''root/initial-machine-cache/0xabc.bin.wip'',
       Rename ''root/initial-machine-cache/0xabc.bin.wip''
         ''root/initial-machine-cache/0xabc.bin'',
       StartProgressLoop, StartValidationLoop])"
    by (simp add: f e Let_def)
  then show ?thesis
    using demo_cacheLookup e(4) p by simp
qed

end
